theory Spec2Isabelle
  imports Main
begin

section \<open>Loan schemes\<close>

text \<open>
  Modelled from the spec: the record types of \<^verbatim>\<open>module.model/loan.scheme\<close> and
  \<^verbatim>\<open>module.model/deferred.loan.scheme\<close> are not among the sources. The spec gives a
  loan scheme an identifier, an interest rate, a minimum collateral ratio and an optional
  activation height, and a deferred entry the same payload with its
  \<^verbatim>\<open>activateAfterBlock\<close>. The indexer \<^verbatim>\<open>SetDeferredLoanSchemeIndexer\<close> hands one and
  the same object from one mapper to the other (\<^verbatim>\<open>loanSchemeMapper.put(each)\<close> with a
  deferred entry, \<^verbatim>\<open>deferredLoanSchemeMapper.put(prevDeferredLoanScheme)\<close> with a current
  record), so the rows of both tables have one record type. The field \<^verbatim>\<open>id\<close> is
  called \<open>scheme_id\<close> here, \<open>id\<close> being the identity function of HOL.
\<close>

record LoanScheme =
  scheme_id :: string
  minColRatio :: int
  interestRate :: string
  activateAfterBlock :: "int option"

section \<open>The data of the vault and auction read model\<close>

text \<open>
  The shapes the service \<^verbatim>\<open>LoanVaultService\<close> reads and builds; they are declared in
  the client packages, outside the sources, and have here the fields the service reads and
  writes. Several of them have fields of the same name; a field is then written with the
  name of its record. Of a token's info and of an active price the service only passes
  the value on.

  A JavaScript number as far as the service computes one: the result of \<^verbatim>\<open>parseInt\<close> is
  NaN, an integer that a double holds, or an infinity (the sign of zero is not kept). Text
  is ASCII.
\<close>

datatype number = NaN | Number int | Infinity | NegInfinity

datatype exception =
    RpcApiError string
  | NotFoundException string
  | ConflictException string
  | BadRequestException exception
  | TypeError string

datatype VaultState = UNKNOWN | ACTIVE | FROZEN | IN_LIQUIDATION | MAY_LIQUIDATE

datatype LoanVaultState =
  LoanVault_UNKNOWN | LoanVault_ACTIVE | LoanVault_FROZEN | LoanVault_IN_LIQUIDATION |
  LoanVault_MAY_LIQUIDATE

record TokenInfo =
  symbol :: string
  symbolKey :: string
  name :: string
  isDAT :: bool
  isLPS :: bool

record ActivePrice =
  key :: string
  active :: string

record LoanVaultTokenAmount =
  token_id :: string
  amount :: string
  symbol :: string
  symbolKey :: string
  name :: string
  displaySymbol :: string
  activePrice :: "ActivePrice option"

text \<open>
  A batch as the node sends it. Its \<^verbatim>\<open>loan\<close> is declared a string; the node's JSON may
  still come without one, which is \<open>None\<close>.
\<close>

record VaultLiquidationBatch =
  index :: nat
  collaterals :: "string list"
  loan :: "string option"

record LoanVaultLiquidationBatch =
  index :: nat
  collaterals :: "LoanVaultTokenAmount list"
  loan :: "LoanVaultTokenAmount option"

text \<open>
  A vault as the node sends it: \<^verbatim>\<open>VaultActive | VaultLiquidation\<close>, told apart by
  \<^verbatim>\<open>state\<close>; the service casts the one object to either shape. The numeric fields are
  carried as the decimal text that \<^verbatim>\<open>toFixed()\<close> gives.
\<close>

record Vault =
  vaultId :: string
  loanSchemeId :: string
  ownerAddress :: string
  state :: VaultState
  informativeRatio :: string
  collateralRatio :: string
  collateralValue :: string
  loanValue :: string
  interestValue :: string
  collateralAmounts :: "string list option"
  loanAmounts :: "string list option"
  interestAmounts :: "string list option"
  batchCount :: nat
  liquidationHeight :: nat
  liquidationPenalty :: nat
  batches :: "VaultLiquidationBatch list"

record LoanSchemeWithDefault = LoanScheme +
  is_default :: bool

record LoanVaultActive =
  vaultId :: string
  loanScheme :: LoanSchemeWithDefault
  ownerAddress :: string
  state :: LoanVaultState
  informativeRatio :: string
  collateralRatio :: string
  collateralValue :: string
  loanValue :: string
  interestValue :: string
  collateralAmounts :: "LoanVaultTokenAmount list"
  loanAmounts :: "LoanVaultTokenAmount list"
  interestAmounts :: "LoanVaultTokenAmount list"

record LoanVaultLiquidated =
  vaultId :: string
  loanScheme :: LoanSchemeWithDefault
  ownerAddress :: string
  state :: LoanVaultState
  batchCount :: nat
  liquidationHeight :: nat
  liquidationPenalty :: nat
  batches :: "LoanVaultLiquidationBatch list"

datatype LoanVault = Active LoanVaultActive | Liquidated LoanVaultLiquidated

text \<open>
  The field \<^verbatim>\<open>size\<close> of a query is called \<open>query_size\<close>, \<open>size\<close> being a function
  of HOL.
\<close>

record PaginationQuery =
  query_size :: nat
  "next" :: "string option"

record AuctionPaginationStart =
  vaultId :: string
  height :: number

record AuctionPagination =
  start :: "AuctionPaginationStart option"
  limit :: nat

section \<open>The tables of the index\<close>

text \<open>
  Modelled from the spec: the record type of \<^verbatim>\<open>module.model/loan.scheme.history\<close> is not
  among the sources. The spec gives a history record as the state of a loan scheme at a
  block height, kept under the key (identifier, height): \<open>recorded\<close> is that state, and
  it is what \<^verbatim>\<open>loanSchemeMapper.put(prevLoanScheme)\<close> stores.
\<close>

record LoanSchemeHistory =
  loanSchemeId :: string
  recordedAt :: nat
  recorded :: LoanScheme

record store =
  loanSchemeTable :: "LoanScheme list"
  loanSchemeHistoryTable :: "LoanSchemeHistory list"
  deferredLoanSchemeTable :: "LoanScheme list"

text \<open>
  Modelled from the spec: the persistence mappers (\<^verbatim>\<open>module.model/loan.scheme\<close>,
  \<^verbatim>\<open>loan.scheme.history\<close>, \<^verbatim>\<open>deferred.loan.scheme\<close>) are not among the sources.
  The spec gives them as \<^verbatim>\<open>get(id) -> value|absent\<close>, \<^verbatim>\<open>put(value) -> void\<close>,
  \<^verbatim>\<open>delete(id) -> void\<close> and \<^verbatim>\<open>query(key, limit) -> ordered sequence\<close>, one row per
  identifier. A table is the list of its rows in the order a scan returns them; the spec
  leaves that order open, and every list is admitted as a table's content.
\<close>

definition table_get :: "LoanScheme list \<Rightarrow> string \<Rightarrow> LoanScheme option" where
  "table_get tbl k = find (\<lambda>r. scheme_id r = k) tbl"

definition table_put :: "LoanScheme \<Rightarrow> LoanScheme list \<Rightarrow> LoanScheme list" where
  "table_put r tbl =
     (if scheme_id r \<in> set (map scheme_id tbl)
      then map (\<lambda>x. if scheme_id x = scheme_id r then r else x) tbl
      else tbl @ [r])"

definition table_delete :: "string \<Rightarrow> LoanScheme list \<Rightarrow> LoanScheme list" where
  "table_delete k tbl = filter (\<lambda>r. scheme_id r \<noteq> k) tbl"

definition table_query :: "nat \<Rightarrow> LoanScheme list \<Rightarrow> LoanScheme list" where
  "table_query limit' tbl = take limit' tbl"

definition LoanSchemeMapper_get :: "store \<Rightarrow> string \<Rightarrow> LoanScheme option" where
  "LoanSchemeMapper_get st k = table_get (loanSchemeTable st) k"

definition LoanSchemeMapper_put :: "LoanScheme \<Rightarrow> store \<Rightarrow> store" where
  "LoanSchemeMapper_put r st = st\<lparr>loanSchemeTable := table_put r (loanSchemeTable st)\<rparr>"

definition DeferredLoanSchemeMapper_get :: "store \<Rightarrow> string \<Rightarrow> LoanScheme option" where
  "DeferredLoanSchemeMapper_get st k = table_get (deferredLoanSchemeTable st) k"

definition DeferredLoanSchemeMapper_put :: "LoanScheme \<Rightarrow> store \<Rightarrow> store" where
  "DeferredLoanSchemeMapper_put r st =
     st\<lparr>deferredLoanSchemeTable := table_put r (deferredLoanSchemeTable st)\<rparr>"

definition DeferredLoanSchemeMapper_delete :: "string \<Rightarrow> store \<Rightarrow> store" where
  "DeferredLoanSchemeMapper_delete k st =
     st\<lparr>deferredLoanSchemeTable := table_delete k (deferredLoanSchemeTable st)\<rparr>"

definition DeferredLoanSchemeMapper_query :: "store \<Rightarrow> nat \<Rightarrow> LoanScheme list" where
  "DeferredLoanSchemeMapper_query st limit' = table_query limit' (deferredLoanSchemeTable st)"

text \<open>
  Modelled from the spec: the history of one identifier, most recent first, cut at the
  limit. \<open>newest_first\<close> inserts a record before the first one that is not more recent.
\<close>

fun newest_first :: "LoanSchemeHistory \<Rightarrow> LoanSchemeHistory list \<Rightarrow> LoanSchemeHistory list" where
  "newest_first h [] = [h]"
| "newest_first h (x # xs) =
     (if recordedAt x \<le> recordedAt h then h # x # xs else x # newest_first h xs)"

definition LoanSchemeHistoryMapper_query :: "store \<Rightarrow> string \<Rightarrow> nat \<Rightarrow> LoanSchemeHistory list" where
  "LoanSchemeHistoryMapper_query st k limit' =
     take limit' (foldr newest_first
       (filter (\<lambda>h. loanSchemeId h = k) (loanSchemeHistoryTable st)) [])"

section \<open>The deferred loan-scheme indexer\<close>

record RawBlock =
  hash :: string
  height :: int

text \<open>The payload of a decoded transaction: \<^verbatim>\<open>dftx.data\<close> of a \<^verbatim>\<open>DfTxTransaction<LoanScheme>\<close>.\<close>

record DfTxTransaction =
  "identifier" :: string
  ratio :: int
  rate :: string
  update :: int

datatype NotFoundIndexerError = NotFoundIndexerError string string string

text \<open>
  \<^verbatim>\<open>new BigNumber(block.height).gte(each.activateAfterBlock)\<close>: a comparison with a
  missing activation height is a comparison with NaN, which is false.
\<close>

definition gte :: "int \<Rightarrow> int option \<Rightarrow> bool" where
  "gte h a = (case a of None \<Rightarrow> False | Some b \<Rightarrow> b \<le> h)"

text \<open>
  \<^verbatim>\<open>index\<close>: the list is read once, then every entry of it that is due is put into the
  LoanScheme table and deleted from the deferred table.
\<close>

fun index_loop :: "RawBlock \<Rightarrow> LoanScheme list \<Rightarrow> store \<Rightarrow> store" where
  "index_loop block [] st = st"
| "index_loop block (each # list) st =
     (if gte (height block) (activateAfterBlock each)
      then index_loop block list
             (DeferredLoanSchemeMapper_delete (scheme_id each) (LoanSchemeMapper_put each st))
      else index_loop block list st)"

definition index :: "RawBlock \<Rightarrow> store \<Rightarrow> store" where
  "index block st = index_loop block (DeferredLoanSchemeMapper_query st 100) st"

definition getPrevLoanScheme :: "store \<Rightarrow> string \<Rightarrow> NotFoundIndexerError + LoanSchemeHistory" where
  "getPrevLoanScheme st loanSchemeId' =
     (case LoanSchemeHistoryMapper_query st loanSchemeId' 1 of
        [] \<Rightarrow> Inl (NotFoundIndexerError ''index'' ''LoanSchemeHistory'' loanSchemeId')
      | h # _ \<Rightarrow> Inr h)"

definition getCurrentLoanScheme :: "store \<Rightarrow> string \<Rightarrow> NotFoundIndexerError + LoanScheme" where
  "getCurrentLoanScheme st loanSchemeId' =
     (case LoanSchemeMapper_get st loanSchemeId' of
        None \<Rightarrow> Inl (NotFoundIndexerError ''index'' ''LoanScheme'' loanSchemeId')
      | Some r \<Rightarrow> Inr r)"

text \<open>
  \<^verbatim>\<open>invalidate\<close>: the result is the error thrown, if any, and the store as the call leaves
  it. \<open>invalidate_txn\<close> is the body of the loop: the two lookups, then the two writes,
  the current record into the deferred table and the history record into the LoanScheme
  table.
\<close>

definition invalidate_txn :: "DfTxTransaction \<Rightarrow> store \<Rightarrow> NotFoundIndexerError option \<times> store" where
  "invalidate_txn data st =
     (case getCurrentLoanScheme st (identifier data) of
        Inl e \<Rightarrow> (Some e, st)
      | Inr prevDeferredLoanScheme \<Rightarrow>
          (case getPrevLoanScheme st (identifier data) of
             Inl e \<Rightarrow> (Some e, st)
           | Inr prevLoanScheme \<Rightarrow>
               (None, LoanSchemeMapper_put (recorded prevLoanScheme)
                        (DeferredLoanSchemeMapper_put prevDeferredLoanScheme st))))"

fun invalidate :: "DfTxTransaction list \<Rightarrow> store \<Rightarrow> NotFoundIndexerError option \<times> store" where
  "invalidate [] st = (None, st)"
| "invalidate (data # txns) st =
     (case invalidate_txn data st of
        (Some e, st') \<Rightarrow> (Some e, st')
      | (None, st') \<Rightarrow> invalidate txns st')"


subsection \<open>Concrete tables\<close>

text \<open>
  Scheme \<open>A\<close> in three states: what the history recorded, the update waiting in the
  deferred table for block 10, and the same update once it is current.
\<close>

definition scheme_A_recorded :: LoanScheme where
  "scheme_A_recorded =
     \<lparr>scheme_id = ''A'', minColRatio = 150, interestRate = ''5'', activateAfterBlock = None\<rparr>"

definition scheme_A_update :: LoanScheme where
  "scheme_A_update =
     \<lparr>scheme_id = ''A'', minColRatio = 200, interestRate = ''3'', activateAfterBlock = Some 10\<rparr>"

definition history_A :: LoanSchemeHistory where
  "history_A = \<lparr>loanSchemeId = ''A'', recordedAt = 5, recorded = scheme_A_recorded\<rparr>"

definition store_pending :: store where
  "store_pending =
     \<lparr>loanSchemeTable = [scheme_A_recorded], loanSchemeHistoryTable = [history_A],
      deferredLoanSchemeTable = [scheme_A_update]\<rparr>"

definition store_activated :: store where
  "store_activated =
     \<lparr>loanSchemeTable = [scheme_A_update], loanSchemeHistoryTable = [history_A],
      deferredLoanSchemeTable = []\<rparr>"

definition block_at :: "int \<Rightarrow> RawBlock" where
  "block_at h = \<lparr>hash = ''00'', height = h\<rparr>"

definition txn_for :: "string \<Rightarrow> DfTxTransaction" where
  "txn_for k = \<lparr>identifier = k, ratio = 200, rate = ''3'', update = 10\<rparr>"

text \<open>A deferred table of 101 entries, all due at block 7, with the identifiers s, ss, sss, ...\<close>

definition deferred_101 :: "LoanScheme list" where
  "deferred_101 =
     map (\<lambda>n. \<lparr>scheme_id = replicate (Suc n) CHR ''s'', minColRatio = 150, interestRate = ''1'',
               activateAfterBlock = Some 7\<rparr>) [0..<101]"

definition store_101 :: store where
  "store_101 =
     \<lparr>loanSchemeTable = [], loanSchemeHistoryTable = [], deferredLoanSchemeTable = deferred_101\<rparr>"

text \<open>
  The same tables with the history record of \<open>A\<close> carrying an id of its own, \<open>A-5\<close>.
\<close>

definition scheme_A_recorded_keyed :: LoanScheme where
  "scheme_A_recorded_keyed =
     \<lparr>scheme_id = ''A-5'', minColRatio = 150, interestRate = ''5'', activateAfterBlock = None\<rparr>"

definition history_A_keyed :: LoanSchemeHistory where
  "history_A_keyed = \<lparr>loanSchemeId = ''A'', recordedAt = 5, recorded = scheme_A_recorded_keyed\<rparr>"

definition store_activated_keyed :: store where
  "store_activated_keyed =
     \<lparr>loanSchemeTable = [scheme_A_update], loanSchemeHistoryTable = [history_A_keyed],
      deferredLoanSchemeTable = []\<rparr>"

text \<open>
  The 101 entries due at block 7 behind one entry that is due only at block 8.
\<close>

definition due_at :: "RawBlock \<Rightarrow> LoanScheme \<Rightarrow> bool" where
  "due_at block each = gte (height block) (activateAfterBlock each)"

definition entry_not_due :: LoanScheme where
  "entry_not_due =
     \<lparr>scheme_id = ''n'', minColRatio = 150, interestRate = ''1'', activateAfterBlock = Some 8\<rparr>"

definition store_102 :: store where
  "store_102 =
     \<lparr>loanSchemeTable = [], loanSchemeHistoryTable = [],
      deferredLoanSchemeTable = entry_not_due # deferred_101\<rparr>"


section \<open>The vault and auction read model\<close>

subsection \<open>What the service uses of JavaScript\<close>

definition StrWhiteSpaceChar :: "char \<Rightarrow> bool" where
  "StrWhiteSpaceChar c \<longleftrightarrow> c \<in> set [CHR 0x09, CHR 0x0A, CHR 0x0B, CHR 0x0C, CHR 0x0D, CHR 0x20]"

definition digit_value :: "char \<Rightarrow> nat option" where
  "digit_value c =
     (let n = (of_char c :: nat) in
      if 48 \<le> n \<and> n \<le> 57 then Some (n - 48)
      else if 97 \<le> n \<and> n \<le> 122 then Some (n - 87)
      else if 65 \<le> n \<and> n \<le> 90 then Some (n - 55)
      else None)"

definition radix_digit :: "nat \<Rightarrow> char \<Rightarrow> bool" where
  "radix_digit R c = (case digit_value c of None \<Rightarrow> False | Some d \<Rightarrow> d < R)"

text \<open>
  The number of a non-negative integer: the integer itself below \<open>2 ^ 53\<close> (which
  is 9007199254740992), above it the nearest integer with 53 significant bits (a tie goes
  to the even one), and none from \<open>2 ^ 1024\<close> on, where the number is Infinity.
\<close>

function bit_length :: "int \<Rightarrow> nat" where
  "bit_length n = (if n \<le> 0 then 0 else Suc (bit_length (n div 2)))"
  by pat_completeness auto
termination
  by (relation "measure nat") auto

definition to_double :: "int \<Rightarrow> int option" where
  "to_double m =
     (if m < 9007199254740992 then Some m
      else (let e = bit_length m - 53;
                q = m div 2 ^ e;
                r = m mod 2 ^ e;
                half = 2 ^ (e - 1);
                q' = (if half < r \<or> (r = half \<and> odd q) then q + 1 else q);
                v = q' * 2 ^ e
            in if 2 ^ 1024 \<le> v then None else Some v))"

text \<open>
  \<^verbatim>\<open>parseInt(string)\<close> with no radix: leading white space and a sign are skipped, a
  prefix \<^verbatim>\<open>0x\<close> selects radix 16, the longest run of digits is read, and there being
  none the result is NaN. The integer read is returned as a number.
\<close>

definition parseInt :: "string \<Rightarrow> number" where
  "parseInt str =
     (let S = dropWhile StrWhiteSpaceChar str;
          sign = (if take 1 S = ''-'' then - 1 else (1 :: int));
          S1 = (if take 1 S = ''-'' \<or> take 1 S = ''+'' then drop 1 S else S);
          R = (if take 2 S1 = ''0x'' \<or> take 2 S1 = ''0X'' then 16 else (10 :: nat));
          S2 = (if R = 16 then drop 2 S1 else S1);
          Z = takeWhile (radix_digit R) S2
      in if Z = [] then NaN
         else (case to_double
                      (foldl (\<lambda>a c. a * int R + (case digit_value c of None \<Rightarrow> 0 | Some d \<Rightarrow> int d)) 0 Z) of
                 None \<Rightarrow> (if sign < 0 then NegInfinity else Infinity)
               | Some m \<Rightarrow> Number (sign * m)))"

text \<open>\<^verbatim>\<open>value.split('@')\<close>: the pieces between the separators, at least one.\<close>

fun split :: "char \<Rightarrow> string \<Rightarrow> string list" where
  "split sep [] = [[]]"
| "split sep (c # cs) =
     (if c = sep then [] # split sep cs
      else (case split sep cs of [] \<Rightarrow> [[c]] | p # ps \<Rightarrow> (c # p) # ps))"

text \<open>
  \<^verbatim>\<open>Array.prototype.sort(comparefn)\<close>. The language fixes the result only for a
  consistent comparator; for any other it is what the engine does. This is the engine of
  Node.js (V8): a comparison result that is NaN counts as 0 (and an infinite one by its
  sign, which is all the engine looks at), the initial run is found by
  comparing each element with the one before it (and reversed when strictly descending),
  and the elements after the run are placed by binary insertion. V8 sorts an array of
  fewer than 32 elements in exactly this way, and a longer one whose initial run covers
  it.
\<close>

definition Compare :: "('a \<Rightarrow> 'a \<Rightarrow> number) \<Rightarrow> 'a \<Rightarrow> 'a \<Rightarrow> int" where
  "Compare comparefn x y =
     (case comparefn x y of NaN \<Rightarrow> 0 | Number v \<Rightarrow> v | Infinity \<Rightarrow> 1 | NegInfinity \<Rightarrow> - 1)"

fun run_after :: "('a \<Rightarrow> 'a \<Rightarrow> number) \<Rightarrow> bool \<Rightarrow> 'a \<Rightarrow> 'a list \<Rightarrow> nat" where
  "run_after comparefn isDescending previousElement [] = 0"
| "run_after comparefn isDescending previousElement (currentElement # rest) =
     (let order = Compare comparefn currentElement previousElement in
      if (if isDescending then order \<ge> 0 else order < 0) then 0
      else Suc (run_after comparefn isDescending currentElement rest))"

definition CountAndMakeRun :: "('a \<Rightarrow> 'a \<Rightarrow> number) \<Rightarrow> 'a list \<Rightarrow> 'a list \<times> nat" where
  "CountAndMakeRun comparefn workArray =
     (case workArray of
        [] \<Rightarrow> (workArray, 0)
      | [x] \<Rightarrow> (workArray, 1)
      | elementHigh # elementLow # rest \<Rightarrow>
          (let isDescending = (Compare comparefn elementLow elementHigh < 0);
               runLength = 2 + run_after comparefn isDescending elementLow rest
           in (if isDescending then rev (take runLength workArray) @ drop runLength workArray
               else workArray,
               runLength)))"

function binary_search :: "('a \<Rightarrow> 'a \<Rightarrow> number) \<Rightarrow> 'a list \<Rightarrow> 'a \<Rightarrow> nat \<Rightarrow> nat \<Rightarrow> nat" where
  "binary_search comparefn workArray pivot left right =
     (if left < right
      then (let mid = left + (right - left) div 2 in
            if Compare comparefn pivot (workArray ! mid) < 0
            then binary_search comparefn workArray pivot left mid
            else binary_search comparefn workArray pivot (mid + 1) right)
      else left)"
  by pat_completeness auto
termination
  by (relation "measure (\<lambda>(comparefn, workArray, pivot, left, right). right - left)") auto

definition insert_pivot :: "('a \<Rightarrow> 'a \<Rightarrow> number) \<Rightarrow> 'a list \<Rightarrow> nat \<Rightarrow> 'a list" where
  "insert_pivot comparefn workArray start' =
     (let pivot = workArray ! start';
          left = binary_search comparefn workArray pivot 0 start'
      in take left workArray @ [pivot] @ take (start' - left) (drop left workArray) @
         drop (Suc start') workArray)"

definition BinaryInsertionSort :: "('a \<Rightarrow> 'a \<Rightarrow> number) \<Rightarrow> nat \<Rightarrow> 'a list \<Rightarrow> 'a list" where
  "BinaryInsertionSort comparefn startArg workArray =
     foldl (insert_pivot comparefn) workArray [startArg..<length workArray]"

definition Array_sort :: "('a \<Rightarrow> 'a \<Rightarrow> number) \<Rightarrow> 'a list \<Rightarrow> 'a list" where
  "Array_sort comparefn array =
     (case CountAndMakeRun comparefn array of
        (workArray, runLength) \<Rightarrow> BinaryInsertionSort comparefn runLength workArray)"

subsection \<open>The collaborators\<close>

text \<open>
  The collaborators of the service. The node (\<^verbatim>\<open>client.loan\<close>), the token cache, the
  price mapper and \<^verbatim>\<open>parseDisplaySymbol\<close> are outside the sources and are taken as
  given: what each returns is a field of \<open>collaborators\<close>. A \<^verbatim>\<open>TokenResult\<close> is
  the list of its (id, info) entries in property order; a symbol that is
  \<^verbatim>\<open>undefined\<close> is \<open>None\<close>. How long they take to answer decides which of several
  concurrent failures is reported: that is \<open>first_rejection\<close>.
\<close>

record collaborators =
  getVault :: "string \<Rightarrow> exception + Vault"
  listAuctions :: "AuctionPagination \<Rightarrow> Vault list"
  batchTokenInfoBySymbol :: "string option list \<Rightarrow> string \<Rightarrow> (string \<times> TokenInfo) list option"
  activePriceMapper_query :: "string \<Rightarrow> nat \<Rightarrow> ActivePrice list"
  parseDisplaySymbol :: "TokenInfo \<Rightarrow> string"
  tables :: store
  defaultLoanSchemeMapper_get :: "string option"
  first_rejection :: "exception list \<Rightarrow> nat"


subsection \<open>The service\<close>

definition mapLoanVaultTokenAmount ::
  "collaborators \<Rightarrow> string \<Rightarrow> TokenInfo \<Rightarrow> string \<Rightarrow> ActivePrice option \<Rightarrow> LoanVaultTokenAmount" where
  "mapLoanVaultTokenAmount c id' tokenInfo amount' activePrice' =
     \<lparr>token_id = id', amount = amount',
      LoanVaultTokenAmount.symbol = TokenInfo.symbol tokenInfo,
      LoanVaultTokenAmount.symbolKey = TokenInfo.symbolKey tokenInfo,
      LoanVaultTokenAmount.name = TokenInfo.name tokenInfo,
      displaySymbol = parseDisplaySymbol c tokenInfo,
      activePrice = activePrice'\<rparr>"

definition mapLoanVaultState :: "VaultState \<Rightarrow> LoanVaultState" where
  "mapLoanVaultState st =
     (case st of
        UNKNOWN \<Rightarrow> LoanVault_UNKNOWN
      | ACTIVE \<Rightarrow> LoanVault_ACTIVE
      | FROZEN \<Rightarrow> LoanVault_FROZEN
      | IN_LIQUIDATION \<Rightarrow> LoanVault_IN_LIQUIDATION
      | MAY_LIQUIDATE \<Rightarrow> LoanVault_MAY_LIQUIDATE)"

text \<open>
  The pattern \<^verbatim>\<open>[amount, symbol]\<close> on the pieces of an item; a piece that is not there
  is \<^verbatim>\<open>undefined\<close>. (\<open>split\<close> never returns the empty list.)
\<close>

fun destructure :: "string list \<Rightarrow> string \<times> string option" where
  "destructure [] = ([], None)"
| "destructure [amount'] = (amount', None)"
| "destructure (amount' # symbol' # _) = (amount', Some symbol')"

text \<open>A property key or a template piece made of a value that may be \<^verbatim>\<open>undefined\<close>.\<close>

definition String :: "string option \<Rightarrow> string" where
  "String v = (case v of None \<Rightarrow> ''undefined'' | Some s \<Rightarrow> s)"

text \<open>
  \<^verbatim>\<open>Promise.all\<close> over promises that reject, if they do, in the order of the list: the
  first rejection of the list is the one reported.
\<close>

fun Promise_all :: "(exception + 'a) list \<Rightarrow> exception + 'a list" where
  "Promise_all [] = Inr []"
| "Promise_all (r # rs) =
     (case r of
        Inl e \<Rightarrow> Inl e
      | Inr v \<Rightarrow> (case Promise_all rs of Inl e \<Rightarrow> Inl e | Inr vs \<Rightarrow> Inr (v # vs)))"

text \<open>
  \<^verbatim>\<open>Promise.all\<close> over the promises of several batches or vaults rejects with the
  rejection that comes first in time. Which one that is depends on how long the
  collaborators take to answer, so it is taken as given: \<open>first_rejection\<close> of the
  collaborators picks, from the rejections in list order, the position of the one that
  comes first. With no rejection the values are returned in list order.
\<close>

definition rejections :: "(exception + 'a) list \<Rightarrow> exception list" where
  "rejections rs = List.map_filter (\<lambda>r. case r of Inl e \<Rightarrow> Some e | Inr v \<Rightarrow> None) rs"

definition fulfilments :: "(exception + 'a) list \<Rightarrow> 'a list" where
  "fulfilments rs = List.map_filter (\<lambda>r. case r of Inl e \<Rightarrow> None | Inr v \<Rightarrow> Some v) rs"

definition Promise_all_race :: "(exception list \<Rightarrow> nat) \<Rightarrow> (exception + 'a) list \<Rightarrow> exception + 'a list" where
  "Promise_all_race first rs =
     (case rejections rs of
        [] \<Rightarrow> Inr (fulfilments rs)
      | e # es \<Rightarrow> Inl ((e # es) ! (first (e # es) mod length (e # es))))"

text \<open>
  The body of the \<^verbatim>\<open>async\<close> function that \<^verbatim>\<open>mapTokenAmounts\<close> maps over the items.
  Reading \<^verbatim>\<open>tokenInfo.symbol\<close> of an empty \<^verbatim>\<open>TokenResult\<close> is a TypeError.
\<close>

definition mappedItem ::
  "collaborators \<Rightarrow> (string \<Rightarrow> (string \<times> TokenInfo) list option) \<Rightarrow> string list \<Rightarrow>
   exception + LoanVaultTokenAmount" where
  "mappedItem c tokenInfos pair =
     (case destructure pair of (amount', symbol') \<Rightarrow>
        (case tokenInfos (String symbol') of
           None \<Rightarrow> Inl (ConflictException ''unable to find token'')
         | Some result \<Rightarrow>
             (case result of
                [] \<Rightarrow> Inl (TypeError ''symbol'')
              | (id', info) # _ \<Rightarrow>
                  Inr (mapLoanVaultTokenAmount c id' info amount'
                         (case activePriceMapper_query c (String symbol' @ ''-USD'') 1 of
                            [] \<Rightarrow> None
                          | p # _ \<Rightarrow> Some p)))))"

text \<open>
  \<^verbatim>\<open>mapTokenAmounts\<close>. An item that is \<^verbatim>\<open>undefined\<close> fails at \<^verbatim>\<open>value.split\<close>. The
  items are mapped concurrently, and each one looks its token up before its first
  \<^verbatim>\<open>await\<close>: a token that cannot be found is reported ahead of any later failure. The
  comparator handed to \<^verbatim>\<open>sort\<close> is \<^verbatim>\<open>a => Number.parseInt(a.id)\<close>: it takes no second
  argument.
\<close>

definition mapTokenAmounts ::
  "collaborators \<Rightarrow> string option list option \<Rightarrow> exception + LoanVaultTokenAmount list" where
  "mapTokenAmounts c items =
     (case items of
        None \<Rightarrow> Inr []
      | Some its \<Rightarrow>
          if length its = 0 then Inr []
          else (case those its of
                  None \<Rightarrow> Inl (TypeError ''split'')
                | Some values \<Rightarrow>
                    (let tokenAmounts = map (split CHR ''@'') values;
                         tokenInfos = batchTokenInfoBySymbol c (map (\<lambda>pair. snd (destructure pair)) tokenAmounts);
                         mappedItems = map (mappedItem c tokenInfos) tokenAmounts
                     in if Inl (ConflictException ''unable to find token'') \<in> set mappedItems
                        then Inl (ConflictException ''unable to find token'')
                        else (case Promise_all mappedItems of
                                Inl e \<Rightarrow> Inl e
                              | Inr all \<Rightarrow> Inr (Array_sort (\<lambda>a b. parseInt (token_id a)) all)))))"

text \<open>
  \<^verbatim>\<open>mapLiquidationBatches\<close>. \<open>mapLiquidationBatch\<close> is the \<^verbatim>\<open>async\<close> function it
  maps over the batches: the collaterals are mapped and awaited, then the one-element array
  \<^verbatim>\<open>[batch.loan]\<close>, of whose result the first element is the loan of the view. The batches
  are mapped concurrently.
\<close>

definition mapLiquidationBatch ::
  "collaborators \<Rightarrow> VaultLiquidationBatch \<Rightarrow> exception + LoanVaultLiquidationBatch" where
  "mapLiquidationBatch c batch =
     (case mapTokenAmounts c (Some (map Some (VaultLiquidationBatch.collaterals batch))) of
        Inl e \<Rightarrow> Inl e
      | Inr collaterals' \<Rightarrow>
          (case mapTokenAmounts c (Some [VaultLiquidationBatch.loan batch]) of
             Inl e \<Rightarrow> Inl e
           | Inr loans \<Rightarrow>
               Inr \<lparr>LoanVaultLiquidationBatch.index = VaultLiquidationBatch.index batch,
                    LoanVaultLiquidationBatch.collaterals = collaterals',
                    LoanVaultLiquidationBatch.loan = (case loans of [] \<Rightarrow> None | l # _ \<Rightarrow> Some l)\<rparr>))"

definition mapLiquidationBatches ::
  "collaborators \<Rightarrow> VaultLiquidationBatch list \<Rightarrow> exception + LoanVaultLiquidationBatch list" where
  "mapLiquidationBatches c batches' =
     (if length batches' = 0 then Inr []
      else Promise_all_race (first_rejection c) (map (mapLiquidationBatch c) batches'))"

definition withDefault :: "LoanScheme \<Rightarrow> bool \<Rightarrow> LoanSchemeWithDefault" where
  "withDefault s d = LoanScheme.extend s \<lparr>is_default = d\<rparr>"

definition mapLoanAuction :: "collaborators \<Rightarrow> Vault \<Rightarrow> exception + LoanVaultLiquidated" where
  "mapLoanAuction c data =
     (case LoanSchemeMapper_get (tables c) (Vault.loanSchemeId data) of
        None \<Rightarrow> Inl (NotFoundException ''unable to find loan scheme'')
      | Some loanScheme' \<Rightarrow>
          (case defaultLoanSchemeMapper_get c of
             None \<Rightarrow> Inl (NotFoundException ''Unable to find default scheme'')
           | Some defaultScheme \<Rightarrow>
               (case mapLiquidationBatches c (Vault.batches data) of
                  Inl e \<Rightarrow> Inl e
                | Inr batches' \<Rightarrow>
                    Inr \<lparr>LoanVaultLiquidated.vaultId = Vault.vaultId data,
                         LoanVaultLiquidated.loanScheme =
                           withDefault loanScheme' (scheme_id loanScheme' = defaultScheme),
                         LoanVaultLiquidated.ownerAddress = Vault.ownerAddress data,
                         LoanVaultLiquidated.state = LoanVault_IN_LIQUIDATION,
                         LoanVaultLiquidated.batchCount = Vault.batchCount data,
                         LoanVaultLiquidated.liquidationHeight = Vault.liquidationHeight data,
                         LoanVaultLiquidated.liquidationPenalty = Vault.liquidationPenalty data,
                         LoanVaultLiquidated.batches = batches'\<rparr>)))"

definition mapLoanVault :: "collaborators \<Rightarrow> Vault \<Rightarrow> exception + LoanVault" where
  "mapLoanVault c details =
     (if Vault.state details = IN_LIQUIDATION
      then (case mapLoanAuction c details of Inl e \<Rightarrow> Inl e | Inr v \<Rightarrow> Inr (Liquidated v))
      else
        (case LoanSchemeMapper_get (tables c) (Vault.loanSchemeId details) of
           None \<Rightarrow> Inl (NotFoundException ''unable to find loan scheme'')
         | Some loanScheme' \<Rightarrow>
             (case defaultLoanSchemeMapper_get c of
                None \<Rightarrow> Inl (NotFoundException ''Unable to find default scheme'')
              | Some defaultScheme \<Rightarrow>
                  (case mapTokenAmounts c (map_option (map Some) (Vault.collateralAmounts details)) of
                     Inl e \<Rightarrow> Inl e
                   | Inr collateralAmounts' \<Rightarrow>
                  (case mapTokenAmounts c (map_option (map Some) (Vault.loanAmounts details)) of
                     Inl e \<Rightarrow> Inl e
                   | Inr loanAmounts' \<Rightarrow>
                  (case mapTokenAmounts c (map_option (map Some) (Vault.interestAmounts details)) of
                     Inl e \<Rightarrow> Inl e
                   | Inr interestAmounts' \<Rightarrow>
                       Inr (Active
                         \<lparr>LoanVaultActive.vaultId = Vault.vaultId details,
                          LoanVaultActive.loanScheme = withDefault loanScheme' (scheme_id loanScheme' = defaultScheme),
                          LoanVaultActive.ownerAddress = Vault.ownerAddress details,
                          LoanVaultActive.state = mapLoanVaultState (Vault.state details),
                          LoanVaultActive.informativeRatio = Vault.informativeRatio details,
                          LoanVaultActive.collateralRatio = Vault.collateralRatio details,
                          LoanVaultActive.collateralValue = Vault.collateralValue details,
                          LoanVaultActive.loanValue = Vault.loanValue details,
                          LoanVaultActive.interestValue = Vault.interestValue details,
                          LoanVaultActive.collateralAmounts = collateralAmounts',
                          LoanVaultActive.loanAmounts = loanAmounts',
                          LoanVaultActive.interestAmounts = interestAmounts'\<rparr>)))))))"

text \<open>
  \<^verbatim>\<open>get\<close>: \<open>get_catch\<close> is its \<^verbatim>\<open>catch\<close> block, which receives whatever the node call
  or the mapping of the vault has thrown.
\<close>

definition get_catch :: "string \<Rightarrow> exception \<Rightarrow> exception" where
  "get_catch id' err =
     (case err of
        RpcApiError message \<Rightarrow>
          if message = ''Vault <'' @ id' @ ''> not found'' \<or>
             message = ''vaultId must be of length 64 (not 3, for '999')''
          then NotFoundException ''Unable to find vault''
          else BadRequestException err
      | _ \<Rightarrow> BadRequestException err)"

definition get :: "collaborators \<Rightarrow> string \<Rightarrow> exception + LoanVault" where
  "get c id' =
     (case getVault c id' of
        Inl err \<Rightarrow> Inl (get_catch id' err)
      | Inr vault \<Rightarrow>
          (case mapLoanVault c vault of
             Inl err \<Rightarrow> Inl (get_catch id' err)
           | Inr v \<Rightarrow> Inr v))"

text \<open>
  \<^verbatim>\<open>listAuction\<close>: \<open>listAuction_pagination\<close> is the pagination it hands to the node.
  \<^verbatim>\<open>next.substr(64)\<close> is a string whatever the length of \<^verbatim>\<open>next\<close>, so the test
  \<^verbatim>\<open>height !== undefined\<close> holds and the height is \<^verbatim>\<open>parseInt(height)\<close>. The paging
  envelope around the items is left out.
\<close>

definition substr :: "string \<Rightarrow> nat \<Rightarrow> nat option \<Rightarrow> string" where
  "substr s from len = (case len of None \<Rightarrow> drop from s | Some n \<Rightarrow> take n (drop from s))"

definition listAuction_pagination :: "PaginationQuery \<Rightarrow> AuctionPagination" where
  "listAuction_pagination query =
     (let size' = (if query_size query > 30 then 30 else query_size query) in
      case next query of
        Some next' \<Rightarrow>
          (let vaultId' = substr next' 0 (Some 64);
               height' = Some (substr next' 64 None)
           in \<lparr>start = Some \<lparr>AuctionPaginationStart.vaultId = vaultId',
                              AuctionPaginationStart.height = (case height' of Some h \<Rightarrow> parseInt h | None \<Rightarrow> Number 0)\<rparr>,
               limit = size'\<rparr>)
      | None \<Rightarrow> \<lparr>start = None, limit = size'\<rparr>)"

definition listAuction :: "collaborators \<Rightarrow> PaginationQuery \<Rightarrow> exception + LoanVaultLiquidated list" where
  "listAuction c query =
     Promise_all_race (first_rejection c)
       (map (mapLoanAuction c) (listAuctions c (listAuction_pagination query)))"

subsection \<open>A concrete service\<close>

text \<open>
  A node that knows no vault: it answers an identifier that is not 64 characters long with
  the length error, and any other with not-found. The token registry holds three tokens
  with the ids 3, 1 and 10. Of several failures the first of the list comes first.
\<close>

definition token :: "string \<Rightarrow> TokenInfo" where
  "token s =
     \<lparr>TokenInfo.symbol = s, TokenInfo.symbolKey = s, TokenInfo.name = s, isDAT = True,
      isLPS = False\<rparr>"

definition registry :: "string \<Rightarrow> (string \<times> TokenInfo) list option" where
  "registry s =
     (if s = ''USDT'' then Some [(''3'', token ''USDT'')]
      else if s = ''ETH'' then Some [(''1'', token ''ETH'')]
      else if s = ''TSLA'' then Some [(''10'', token ''TSLA'')]
      else None)"

definition node_getVault :: "string \<Rightarrow> exception + Vault" where
  "node_getVault v =
     (if v = ''999'' then Inl (RpcApiError ''vaultId must be of length 64 (not 3, for '999')'')
      else if v = ''12'' then Inl (RpcApiError ''vaultId must be of length 64 (not 2, for '12')'')
      else Inl (RpcApiError (''Vault <'' @ v @ ''> not found'')))"

definition service :: collaborators where
  "service =
     \<lparr>getVault = node_getVault,
      listAuctions = (\<lambda>_. []),
      batchTokenInfoBySymbol = (\<lambda>_. registry),
      activePriceMapper_query = (\<lambda>_ _. []),
      parseDisplaySymbol = (\<lambda>info. ''d'' @ TokenInfo.symbol info),
      tables = store_activated,
      defaultLoanSchemeMapper_get = Some ''A'',
      first_rejection = (\<lambda>_. 0)\<rparr>"

definition batch_with_loan :: VaultLiquidationBatch where
  "batch_with_loan =
     \<lparr>VaultLiquidationBatch.index = 0, VaultLiquidationBatch.collaterals = [''1@ETH''],
      VaultLiquidationBatch.loan = Some ''2@USDT''\<rparr>"

definition batch_without_loan :: VaultLiquidationBatch where
  "batch_without_loan =
     \<lparr>VaultLiquidationBatch.index = 1, VaultLiquidationBatch.collaterals = [''1@ETH''],
      VaultLiquidationBatch.loan = None\<rparr>"

definition batch_with_empty_loan :: VaultLiquidationBatch where
  "batch_with_empty_loan =
     \<lparr>VaultLiquidationBatch.index = 1, VaultLiquidationBatch.collaterals = [''1@ETH''],
      VaultLiquidationBatch.loan = Some []\<rparr>"

definition amount_of :: "string \<Rightarrow> string \<Rightarrow> string \<Rightarrow> LoanVaultTokenAmount" where
  "amount_of i a s =
     \<lparr>token_id = i, amount = a, LoanVaultTokenAmount.symbol = s,
      LoanVaultTokenAmount.symbolKey = s, LoanVaultTokenAmount.name = s,
      displaySymbol = ''d'' @ s, activePrice = None\<rparr>"

section \<open>Properties\<close>

subsection \<open>Tables\<close>

lemma find_replace:
  "find (\<lambda>x. scheme_id x = k) (map (\<lambda>x. if scheme_id x = scheme_id r then r else x) tbl) =
     (if k = scheme_id r
      then (if scheme_id r \<in> scheme_id ` set tbl then Some r else None)
      else find (\<lambda>x. scheme_id x = k) tbl)"
  by (induction tbl) auto

lemma find_snoc:
  "find P (tbl @ [r]) =
     (case find P tbl of Some x \<Rightarrow> Some x | None \<Rightarrow> if P r then Some r else None)"
  by (induction tbl) auto

lemma find_absent: "k \<notin> scheme_id ` set tbl \<Longrightarrow> find (\<lambda>x. scheme_id x = k) tbl = None"
  by (induction tbl) auto

lemma table_get_put:
  "table_get (table_put r tbl) k = (if k = scheme_id r then Some r else table_get tbl k)"
proof (cases "scheme_id r \<in> scheme_id ` set tbl")
  case True
  then show ?thesis
    unfolding table_get_def table_put_def by (simp add: find_replace)
next
  case False
  then show ?thesis
    unfolding table_get_def table_put_def
    by (auto simp: find_snoc find_absent split: option.splits)
qed

lemma table_get_delete:
  "table_get (table_delete k' tbl) k = (if k = k' then None else table_get tbl k)"
  unfolding table_get_def table_delete_def
  by (induction tbl) auto

lemma table_get_id: "table_get tbl k = Some r \<Longrightarrow> scheme_id r = k"
  unfolding table_get_def by (auto simp: find_Some_iff)

lemma table_get_distinct:
  "distinct (map scheme_id tbl) \<Longrightarrow> r \<in> set tbl \<Longrightarrow> table_get tbl (scheme_id r) = Some r"
  unfolding table_get_def by (induction tbl) (auto simp: rev_image_eqI)

lemma same_id_same_row:
  "distinct (map scheme_id tbl) \<Longrightarrow> x \<in> set tbl \<Longrightarrow> y \<in> set tbl \<Longrightarrow>
   scheme_id x = scheme_id y \<Longrightarrow> x = y"
  by (meson distinct_map inj_on_def)

lemma table_get_None: "k \<notin> scheme_id ` set tbl \<Longrightarrow> table_get tbl k = None"
  unfolding table_get_def by (rule find_absent)

lemma find_filter_ids:
  "(\<And>r. scheme_id r = k \<Longrightarrow> Q r) \<Longrightarrow>
   find (\<lambda>r. scheme_id r = k) (filter Q tbl) = find (\<lambda>r. scheme_id r = k) tbl"
  by (induction tbl) auto

lemmas example_defs =
  scheme_A_recorded_def scheme_A_update_def history_A_def store_pending_def store_activated_def
  block_at_def txn_for_def

lemmas mapper_defs =
  table_get_def table_put_def table_delete_def table_query_def
  LoanSchemeMapper_get_def LoanSchemeMapper_put_def DeferredLoanSchemeMapper_get_def
  DeferredLoanSchemeMapper_put_def DeferredLoanSchemeMapper_delete_def
  DeferredLoanSchemeMapper_query_def LoanSchemeHistoryMapper_query_def

lemmas indexer_defs =
  index_def gte_def getPrevLoanScheme_def getCurrentLoanScheme_def invalidate_txn_def

lemmas keyed_defs =
  scheme_A_recorded_keyed_def history_A_keyed_def store_activated_keyed_def

subsection \<open>The forward pass\<close>

lemma index_loop_history:
  "loanSchemeHistoryTable (index_loop b xs st) = loanSchemeHistoryTable st"
  by (induction xs arbitrary: st)
     (simp_all add: DeferredLoanSchemeMapper_delete_def LoanSchemeMapper_put_def)

lemma index_loop_deferred:
  "deferredLoanSchemeTable (index_loop b xs st) =
     filter (\<lambda>r. \<not> (\<exists>e\<in>set xs. gte (height b) (activateAfterBlock e) \<and> scheme_id e = scheme_id r))
       (deferredLoanSchemeTable st)"
proof (induction xs arbitrary: st)
  case Nil
  show ?case by simp
next
  case (Cons x xs)
  show ?case
    by (auto simp: Cons.IH DeferredLoanSchemeMapper_delete_def LoanSchemeMapper_put_def
          table_delete_def intro: filter_cong)
qed

lemma index_loop_loan_miss:
  "\<not> (\<exists>e\<in>set xs. gte (height b) (activateAfterBlock e) \<and> scheme_id e = k) \<Longrightarrow>
   table_get (loanSchemeTable (index_loop b xs st)) k = table_get (loanSchemeTable st) k"
proof (induction xs arbitrary: st)
  case Nil
  show ?case by simp
next
  case (Cons x xs)
  then show ?case
    by (auto simp: DeferredLoanSchemeMapper_delete_def LoanSchemeMapper_put_def table_get_put)
qed

lemma index_loop_loan_hit:
  "distinct (map scheme_id xs) \<Longrightarrow> e \<in> set xs \<Longrightarrow> gte (height b) (activateAfterBlock e) \<Longrightarrow>
   table_get (loanSchemeTable (index_loop b xs st)) (scheme_id e) = Some e"
proof (induction xs arbitrary: st)
  case Nil
  then show ?case by simp
next
  case (Cons x xs)
  show ?case
  proof (cases "e = x")
    case True
    have "\<not> (\<exists>e'\<in>set xs. gte (height b) (activateAfterBlock e') \<and> scheme_id e' = scheme_id x)"
      using Cons.prems(1) by (auto simp: image_iff)
    from index_loop_loan_miss [OF this] show ?thesis
      using True Cons.prems(3)
      by (simp add: DeferredLoanSchemeMapper_delete_def LoanSchemeMapper_put_def table_get_put)
  next
    case False
    with Cons.prems have "e \<in> set xs" "distinct (map scheme_id xs)" by auto
    then show ?thesis
      using Cons.IH Cons.prems(3) by simp
  qed
qed

lemma index_promotes:
  assumes d: "distinct (map scheme_id (deferredLoanSchemeTable st))"
    and e: "e \<in> set (DeferredLoanSchemeMapper_query st 100)"
    and due: "gte (height b) (activateAfterBlock e)"
  shows "LoanSchemeMapper_get (index b st) (scheme_id e) = Some e"
    and "scheme_id e \<notin> scheme_id ` set (deferredLoanSchemeTable (index b st))"
proof -
  let ?xs = "take 100 (deferredLoanSchemeTable st)"
  have dx: "distinct (map scheme_id ?xs)"
    using d by (simp add: take_map [symmetric])
  have ex: "e \<in> set ?xs"
    using e by (simp add: DeferredLoanSchemeMapper_query_def table_query_def)
  show "LoanSchemeMapper_get (index b st) (scheme_id e) = Some e"
    unfolding LoanSchemeMapper_get_def index_def DeferredLoanSchemeMapper_query_def table_query_def
    by (rule index_loop_loan_hit [OF dx ex due])
  show "scheme_id e \<notin> scheme_id ` set (deferredLoanSchemeTable (index b st))"
    unfolding index_def DeferredLoanSchemeMapper_query_def table_query_def index_loop_deferred
    using ex due by auto
qed

lemma index_keeps:
  assumes d: "distinct (map scheme_id (deferredLoanSchemeTable st))"
    and e: "e \<in> set (deferredLoanSchemeTable st)"
    and nd: "e \<in> set (DeferredLoanSchemeMapper_query st 100) \<Longrightarrow> \<not> gte (height b) (activateAfterBlock e)"
  shows "LoanSchemeMapper_get (index b st) (scheme_id e) = LoanSchemeMapper_get st (scheme_id e)"
    and "e \<in> set (deferredLoanSchemeTable (index b st))"
proof -
  let ?xs = "take 100 (deferredLoanSchemeTable st)"
  have none: "\<not> (\<exists>e'\<in>set ?xs. gte (height b) (activateAfterBlock e') \<and> scheme_id e' = scheme_id e)"
  proof
    assume "\<exists>e'\<in>set ?xs. gte (height b) (activateAfterBlock e') \<and> scheme_id e' = scheme_id e"
    then obtain e' where e': "e' \<in> set ?xs" "gte (height b) (activateAfterBlock e')"
      "scheme_id e' = scheme_id e" by blast
    from e'(1) have "e' \<in> set (deferredLoanSchemeTable st)" by (rule in_set_takeD)
    with d e e'(3) have "e' = e" by (auto intro: same_id_same_row)
    with e' nd show False
      by (simp add: DeferredLoanSchemeMapper_query_def table_query_def)
  qed
  show "LoanSchemeMapper_get (index b st) (scheme_id e) = LoanSchemeMapper_get st (scheme_id e)"
    unfolding LoanSchemeMapper_get_def index_def DeferredLoanSchemeMapper_query_def table_query_def
    by (rule index_loop_loan_miss [OF none])
  show "e \<in> set (deferredLoanSchemeTable (index b st))"
    unfolding index_def DeferredLoanSchemeMapper_query_def table_query_def index_loop_deferred
    using e none by simp
qed

lemma index_distinct:
  "distinct (map scheme_id (deferredLoanSchemeTable st)) \<Longrightarrow>
   distinct (map scheme_id (deferredLoanSchemeTable (index b st)))"
  unfolding index_def index_loop_deferred by (rule distinct_map_filter)

lemma index_absent_stays:
  assumes "k \<notin> scheme_id ` set (deferredLoanSchemeTable st)"
  shows "LoanSchemeMapper_get (index b st) k = LoanSchemeMapper_get st k"
    and "k \<notin> scheme_id ` set (deferredLoanSchemeTable (index b st))"
proof -
  let ?xs = "take 100 (deferredLoanSchemeTable st)"
  have none: "\<not> (\<exists>e'\<in>set ?xs. gte (height b) (activateAfterBlock e') \<and> scheme_id e' = k)"
    using assms by (auto dest: in_set_takeD)
  show "LoanSchemeMapper_get (index b st) k = LoanSchemeMapper_get st k"
    unfolding LoanSchemeMapper_get_def index_def DeferredLoanSchemeMapper_query_def table_query_def
    by (rule index_loop_loan_miss [OF none])
  show "k \<notin> scheme_id ` set (deferredLoanSchemeTable (index b st))"
    unfolding index_def index_loop_deferred using assms by auto
qed

text \<open>
  Claim C4. A deferred entry with \<^verbatim>\<open>activateAfterBlock = H\<close> that the forward pass
  scans is left alone at height \<open>H - 1\<close> (it stays deferred and the current record
  of its identifier is untouched), is promoted at height \<open>H\<close> (it becomes the current
  record and leaves the deferred table), and is still so after the block at \<open>H + 1\<close>.
\<close>

theorem activation_boundary:
  assumes d: "distinct (map scheme_id (deferredLoanSchemeTable st))"
    and e: "each \<in> set (DeferredLoanSchemeMapper_query st 100)"
    and a: "activateAfterBlock each = Some H"
    and b0: "height b0 = H - 1" and b1: "height b1 = H" and b2: "height b2 = H + 1"
  shows "(LoanSchemeMapper_get (index b0 st) (scheme_id each) = LoanSchemeMapper_get st (scheme_id each) \<and>
          each \<in> set (deferredLoanSchemeTable (index b0 st))) \<and>
         (LoanSchemeMapper_get (index b1 st) (scheme_id each) = Some each \<and>
          DeferredLoanSchemeMapper_get (index b1 st) (scheme_id each) = None) \<and>
         (LoanSchemeMapper_get (index b2 (index b1 st)) (scheme_id each) = Some each \<and>
          DeferredLoanSchemeMapper_get (index b2 (index b1 st)) (scheme_id each) = None)"
proof -
  have mem: "each \<in> set (deferredLoanSchemeTable st)"
    using e by (auto simp: DeferredLoanSchemeMapper_query_def table_query_def dest: in_set_takeD)
  have "\<not> gte (height b0) (activateAfterBlock each)"
    using a b0 by (simp add: gte_def)
  then have p0: "LoanSchemeMapper_get (index b0 st) (scheme_id each) = LoanSchemeMapper_get st (scheme_id each)"
      "each \<in> set (deferredLoanSchemeTable (index b0 st))"
    using index_keeps [OF d mem, of b0] by simp_all
  have "gte (height b1) (activateAfterBlock each)"
    using a b1 by (simp add: gte_def)
  from index_promotes [OF d e this]
  have p1: "LoanSchemeMapper_get (index b1 st) (scheme_id each) = Some each"
    and gone: "scheme_id each \<notin> scheme_id ` set (deferredLoanSchemeTable (index b1 st))"
    by simp_all
  from index_absent_stays [OF gone, of b2]
  have p2: "LoanSchemeMapper_get (index b2 (index b1 st)) (scheme_id each) = Some each"
    and gone2: "scheme_id each \<notin> scheme_id ` set (deferredLoanSchemeTable (index b2 (index b1 st)))"
    using p1 by simp_all
  show ?thesis
    using p0 p1 p2 gone gone2
    by (simp add: DeferredLoanSchemeMapper_get_def table_get_None)
qed

text \<open>
  Claim C4 at the update of scheme \<open>A\<close>, due at block 10.
\<close>

theorem activation_boundary_witness:
  "(LoanSchemeMapper_get (index (block_at 9) store_pending) (scheme_id scheme_A_update) =
      Some scheme_A_recorded \<and>
    scheme_A_update \<in> set (deferredLoanSchemeTable (index (block_at 9) store_pending))) \<and>
   (LoanSchemeMapper_get (index (block_at 10) store_pending) (scheme_id scheme_A_update) =
      Some scheme_A_update \<and>
    DeferredLoanSchemeMapper_get (index (block_at 10) store_pending) (scheme_id scheme_A_update) = None) \<and>
   (LoanSchemeMapper_get (index (block_at 11) (index (block_at 10) store_pending))
      (scheme_id scheme_A_update) = Some scheme_A_update \<and>
    DeferredLoanSchemeMapper_get (index (block_at 11) (index (block_at 10) store_pending))
      (scheme_id scheme_A_update) = None)"
proof -
  have d: "distinct (map scheme_id (deferredLoanSchemeTable store_pending))"
    by (simp add: example_defs)
  have e: "scheme_A_update \<in> set (DeferredLoanSchemeMapper_query store_pending 100)"
    by (simp add: example_defs mapper_defs)
  have a: "activateAfterBlock scheme_A_update = Some 10"
    by (simp add: example_defs)
  have b: "height (block_at 9) = 10 - 1" "height (block_at 10) = 10" "height (block_at 11) = 10 + 1"
    by (simp_all add: example_defs)
  have before: "LoanSchemeMapper_get store_pending (scheme_id scheme_A_update) = Some scheme_A_recorded"
    by (simp add: example_defs mapper_defs)
  show ?thesis
    using activation_boundary [OF d e a b] before by simp
qed

lemma gte_mono: "gte h a \<Longrightarrow> h \<le> h' \<Longrightarrow> gte h' a"
  by (auto simp: gte_def split: option.splits)

lemma take_drop_ids_disjoint:
  assumes "distinct (map scheme_id tbl)" "x \<in> set (take n tbl)" "y \<in> set (drop n tbl)"
  shows "scheme_id x \<noteq> scheme_id y"
proof -
  have "distinct (map scheme_id (take n tbl) @ map scheme_id (drop n tbl))"
    using assms(1) by (simp add: map_append [symmetric])
  then have "set (map scheme_id (take n tbl)) \<inter> set (map scheme_id (drop n tbl)) = {}"
    by simp
  with assms(2,3) show ?thesis by auto
qed

lemma index_deferred_split:
  assumes d: "distinct (map scheme_id (deferredLoanSchemeTable st))"
  shows "deferredLoanSchemeTable (index b st) =
           filter (\<lambda>r. \<not> gte (height b) (activateAfterBlock r)) (take 100 (deferredLoanSchemeTable st)) @
           drop 100 (deferredLoanSchemeTable st)"
proof -
  let ?D = "deferredLoanSchemeTable st"
  let ?P = "\<lambda>r. \<not> (\<exists>e\<in>set (take 100 ?D). gte (height b) (activateAfterBlock e) \<and> scheme_id e = scheme_id r)"
  have dt: "distinct (map scheme_id (take 100 ?D))"
    using d by (simp add: take_map [symmetric])
  have head_part: "filter ?P (take 100 ?D) = filter (\<lambda>r. \<not> gte (height b) (activateAfterBlock r)) (take 100 ?D)"
  proof (rule filter_cong [OF refl])
    fix r assume r: "r \<in> set (take 100 ?D)"
    show "?P r \<longleftrightarrow> \<not> gte (height b) (activateAfterBlock r)"
    proof
      assume "?P r" with r show "\<not> gte (height b) (activateAfterBlock r)" by blast
    next
      assume nd: "\<not> gte (height b) (activateAfterBlock r)"
      show "?P r"
      proof
        assume "\<exists>e\<in>set (take 100 ?D). gte (height b) (activateAfterBlock e) \<and> scheme_id e = scheme_id r"
        then obtain e where e: "e \<in> set (take 100 ?D)" "gte (height b) (activateAfterBlock e)"
          "scheme_id e = scheme_id r" by blast
        with dt r have "e = r" by (auto intro: same_id_same_row)
        with e nd show False by simp
      qed
    qed
  qed
  have tail_part: "filter ?P (drop 100 ?D) = drop 100 ?D"
  proof -
    have "\<forall>r\<in>set (drop 100 ?D). ?P r"
      using take_drop_ids_disjoint [OF d] by blast
    then show ?thesis by (simp only: filter_True)
  qed
  have "deferredLoanSchemeTable (index b st) = filter ?P (take 100 ?D @ drop 100 ?D)"
    unfolding index_def DeferredLoanSchemeMapper_query_def table_query_def index_loop_deferred
    by simp
  also have "\<dots> = filter ?P (take 100 ?D) @ filter ?P (drop 100 ?D)"
    by (rule filter_append)
  finally show ?thesis by (simp only: head_part tail_part)
qed

lemma index_beyond_cap:
  assumes d: "distinct (map scheme_id (deferredLoanSchemeTable st))"
    and e: "e \<in> set (drop 100 (deferredLoanSchemeTable st))"
  shows "e \<in> set (deferredLoanSchemeTable (index b st))"
    and "LoanSchemeMapper_get (index b st) (scheme_id e) = LoanSchemeMapper_get st (scheme_id e)"
proof -
  have mem: "e \<in> set (deferredLoanSchemeTable st)"
    using e by (rule in_set_dropD)
  have out: "e \<notin> set (DeferredLoanSchemeMapper_query st 100)"
    unfolding DeferredLoanSchemeMapper_query_def table_query_def
    using take_drop_ids_disjoint [OF d _ e] by blast
  show "e \<in> set (deferredLoanSchemeTable (index b st))"
    using index_keeps(2) [OF d mem] out by blast
  show "LoanSchemeMapper_get (index b st) (scheme_id e) = LoanSchemeMapper_get st (scheme_id e)"
    using index_keeps(1) [OF d mem] out by blast
qed

lemma drop_last_one: "length xs = Suc n \<Longrightarrow> drop n xs = [xs ! n]"
  by (metis Cons_nth_drop_Suc drop_all lessI order_refl)

lemma drop_last_two: "length xs = Suc (Suc n) \<Longrightarrow> drop n xs = [xs ! n, xs ! Suc n]"
  by (metis Cons_nth_drop_Suc Suc_lessD drop_last_one lessI)

text \<open>
  Claim C5, as the code has it. The forward pass reads the first 100 entries of the scan,
  due or not. An entry is promoted exactly when it is among these 100 and due; every other
  entry stays deferred and the current record of its identifier is untouched, so the
  deferred table is left with the entries of the first 100 that are not due, followed by
  all entries beyond the first 100. When the table holds 101 entries and all are due at
  the block, the first 100 are promoted, the last one is not, and it is promoted by the
  next block, which finds it alone in the table.
\<close>

theorem batch_cap:
  assumes d: "distinct (map scheme_id (deferredLoanSchemeTable st))"
  shows "deferredLoanSchemeTable (index b st) =
           filter (\<lambda>r. \<not> gte (height b) (activateAfterBlock r))
             (take 100 (deferredLoanSchemeTable st)) @
           drop 100 (deferredLoanSchemeTable st) \<and>
         (\<forall>e\<in>set (deferredLoanSchemeTable st).
            if e \<in> set (take 100 (deferredLoanSchemeTable st)) \<and>
               gte (height b) (activateAfterBlock e)
            then LoanSchemeMapper_get (index b st) (scheme_id e) = Some e \<and>
                 e \<notin> set (deferredLoanSchemeTable (index b st))
            else e \<in> set (deferredLoanSchemeTable (index b st)) \<and>
                 LoanSchemeMapper_get (index b st) (scheme_id e) =
                   LoanSchemeMapper_get st (scheme_id e)) \<and>
         (\<forall>e\<in>set (drop 100 (deferredLoanSchemeTable st)).
            e \<in> set (deferredLoanSchemeTable (index b st)) \<and>
            LoanSchemeMapper_get (index b st) (scheme_id e) = LoanSchemeMapper_get st (scheme_id e)) \<and>
         (length (deferredLoanSchemeTable st) = 101 \<and>
          (\<forall>e\<in>set (deferredLoanSchemeTable st). gte (height b) (activateAfterBlock e)) \<and>
          height b \<le> height b' \<longrightarrow>
            (\<forall>e\<in>set (take 100 (deferredLoanSchemeTable st)).
               LoanSchemeMapper_get (index b st) (scheme_id e) = Some e) \<and>
            deferredLoanSchemeTable (index b st) = [deferredLoanSchemeTable st ! 100] \<and>
            LoanSchemeMapper_get (index b st) (scheme_id (deferredLoanSchemeTable st ! 100)) =
              LoanSchemeMapper_get st (scheme_id (deferredLoanSchemeTable st ! 100)) \<and>
            LoanSchemeMapper_get (index b' (index b st)) (scheme_id (deferredLoanSchemeTable st ! 100)) =
              Some (deferredLoanSchemeTable st ! 100) \<and>
            deferredLoanSchemeTable (index b' (index b st)) = [] \<and>
            (\<forall>e\<in>set (take 100 (deferredLoanSchemeTable st)).
               LoanSchemeMapper_get (index b' (index b st)) (scheme_id e) = Some e))"
proof (intro conjI impI ballI)
  show "deferredLoanSchemeTable (index b st) =
           filter (\<lambda>r. \<not> gte (height b) (activateAfterBlock r))
             (take 100 (deferredLoanSchemeTable st)) @
           drop 100 (deferredLoanSchemeTable st)"
    by (rule index_deferred_split [OF d])
next
  fix e assume mem: "e \<in> set (deferredLoanSchemeTable st)"
  show "if e \<in> set (take 100 (deferredLoanSchemeTable st)) \<and>
               gte (height b) (activateAfterBlock e)
            then LoanSchemeMapper_get (index b st) (scheme_id e) = Some e \<and>
                 e \<notin> set (deferredLoanSchemeTable (index b st))
            else e \<in> set (deferredLoanSchemeTable (index b st)) \<and>
                 LoanSchemeMapper_get (index b st) (scheme_id e) =
                   LoanSchemeMapper_get st (scheme_id e)"
  proof (cases "e \<in> set (take 100 (deferredLoanSchemeTable st)) \<and>
               gte (height b) (activateAfterBlock e)")
    case True
    then have q: "e \<in> set (DeferredLoanSchemeMapper_query st 100)"
      and due: "gte (height b) (activateAfterBlock e)"
      by (simp_all add: DeferredLoanSchemeMapper_query_def table_query_def)
    from index_promotes [OF d q due]
    have "LoanSchemeMapper_get (index b st) (scheme_id e) = Some e"
      and "scheme_id e \<notin> scheme_id ` set (deferredLoanSchemeTable (index b st))"
      by simp_all
    then have "LoanSchemeMapper_get (index b st) (scheme_id e) = Some e \<and>
        e \<notin> set (deferredLoanSchemeTable (index b st))"
      by blast
    with True show ?thesis by simp
  next
    case False
    then have nd: "e \<in> set (DeferredLoanSchemeMapper_query st 100) \<Longrightarrow>
        \<not> gte (height b) (activateAfterBlock e)"
      by (simp add: DeferredLoanSchemeMapper_query_def table_query_def)
    from index_keeps [OF d mem nd]
    have "e \<in> set (deferredLoanSchemeTable (index b st)) \<and>
        LoanSchemeMapper_get (index b st) (scheme_id e) = LoanSchemeMapper_get st (scheme_id e)"
      by simp
    with False show ?thesis by simp
  qed
next
  fix e assume "e \<in> set (drop 100 (deferredLoanSchemeTable st))"
  from index_beyond_cap [OF d this]
  show "e \<in> set (deferredLoanSchemeTable (index b st))"
    and "LoanSchemeMapper_get (index b st) (scheme_id e) = LoanSchemeMapper_get st (scheme_id e)"
    by simp_all
next
  let ?D = "deferredLoanSchemeTable st"
  let ?last = "?D ! 100"
  let ?st1 = "index b st"
  assume full: "length ?D = 101 \<and> (\<forall>e\<in>set ?D. gte (height b) (activateAfterBlock e)) \<and>
      height b \<le> height b'"
  then have len: "length ?D = Suc 100" and due: "\<forall>e\<in>set ?D. gte (height b) (activateAfterBlock e)"
    and later: "height b \<le> height b'" by simp_all
  have rest: "drop 100 ?D = [?last]"
    using len by (rule drop_last_one)
  have last_mem: "?last \<in> set (drop 100 ?D)" by (simp add: rest)
  have promoted: "LoanSchemeMapper_get ?st1 (scheme_id e) = Some e" if "e \<in> set (take 100 ?D)" for e
  proof -
    from that have "e \<in> set (DeferredLoanSchemeMapper_query st 100)"
      by (simp add: DeferredLoanSchemeMapper_query_def table_query_def)
    moreover from that due have "gte (height b) (activateAfterBlock e)"
      by (auto dest: in_set_takeD)
    ultimately show ?thesis by (rule index_promotes(1) [OF d])
  qed
  have "filter (\<lambda>r. \<not> gte (height b) (activateAfterBlock r)) (take 100 ?D) = []"
    using due by (auto simp: filter_empty_conv dest: in_set_takeD)
  then have d1: "deferredLoanSchemeTable ?st1 = [?last]"
    using index_deferred_split [OF d, of b] rest by simp
  have kept: "LoanSchemeMapper_get ?st1 (scheme_id ?last) = LoanSchemeMapper_get st (scheme_id ?last)"
    using index_beyond_cap(2) [OF d last_mem] .
  have dist1: "distinct (map scheme_id (deferredLoanSchemeTable ?st1))"
    by (simp add: d1)
  have scanned: "?last \<in> set (DeferredLoanSchemeMapper_query ?st1 100)"
    by (simp add: DeferredLoanSchemeMapper_query_def table_query_def d1)
  have "gte (height b) (activateAfterBlock ?last)"
    using due last_mem by (auto dest: in_set_dropD)
  then have due': "gte (height b') (activateAfterBlock ?last)"
    using later by (rule gte_mono)
  have p2: "LoanSchemeMapper_get (index b' ?st1) (scheme_id ?last) = Some ?last"
    using index_promotes(1) [OF dist1 scanned due'] .
  have d2: "deferredLoanSchemeTable (index b' ?st1) = []"
    using index_deferred_split [OF dist1, of b'] due' by (simp add: d1)
  have stay: "LoanSchemeMapper_get (index b' ?st1) (scheme_id e) = Some e" if "e \<in> set (take 100 ?D)" for e
  proof -
    have "scheme_id e \<noteq> scheme_id ?last"
      using take_drop_ids_disjoint [OF d that last_mem] .
    then have "scheme_id e \<notin> scheme_id ` set (deferredLoanSchemeTable ?st1)"
      by (simp add: d1)
    from index_absent_stays(1) [OF this] promoted [OF that] show ?thesis by simp
  qed
  show "deferredLoanSchemeTable ?st1 = [?last]" by (rule d1)
  show "LoanSchemeMapper_get ?st1 (scheme_id ?last) = LoanSchemeMapper_get st (scheme_id ?last)"
    by (rule kept)
  show "LoanSchemeMapper_get (index b' ?st1) (scheme_id ?last) = Some ?last" by (rule p2)
  show "deferredLoanSchemeTable (index b' ?st1) = []" by (rule d2)
  show "LoanSchemeMapper_get ?st1 (scheme_id e) = Some e" if "e \<in> set (take 100 ?D)" for e
    using that by (rule promoted)
  show "LoanSchemeMapper_get (index b' ?st1) (scheme_id e) = Some e" if "e \<in> set (take 100 ?D)" for e
    using that by (rule stay)
qed

lemma deferred_101_distinct: "distinct (map scheme_id deferred_101)"
proof -
  have "inj_on (\<lambda>n. replicate (Suc n) CHR ''s'') (set [0..<101])"
    by (rule inj_onI) (metis length_replicate nat.inject)
  then have "distinct (map (\<lambda>n. replicate (Suc n) CHR ''s'') [0..<101])"
    by (simp add: distinct_map)
  then show ?thesis
    by (simp add: deferred_101_def comp_def)
qed

text \<open>
  Claim C5 at a deferred table of 101 entries due at block 7: block 7 leaves the last
  entry alone in the deferred table, block 8 promotes it.
\<close>

theorem batch_cap_witness:
  "length (deferredLoanSchemeTable store_101) = 101 \<and>
   deferredLoanSchemeTable (index (block_at 7) store_101) = [deferredLoanSchemeTable store_101 ! 100] \<and>
   LoanSchemeMapper_get (index (block_at 7) store_101) (scheme_id (deferredLoanSchemeTable store_101 ! 100)) =
     None \<and>
   LoanSchemeMapper_get (index (block_at 8) (index (block_at 7) store_101))
       (scheme_id (deferredLoanSchemeTable store_101 ! 100)) =
     Some (deferredLoanSchemeTable store_101 ! 100) \<and>
   deferredLoanSchemeTable (index (block_at 8) (index (block_at 7) store_101)) = []"
proof -
  have d: "distinct (map scheme_id (deferredLoanSchemeTable store_101))"
    using deferred_101_distinct by (simp add: store_101_def)
  have len: "length (deferredLoanSchemeTable store_101) = 101"
    by (simp add: store_101_def deferred_101_def)
  have due: "\<forall>e\<in>set (deferredLoanSchemeTable store_101). gte (height (block_at 7)) (activateAfterBlock e)"
    by (simp add: store_101_def deferred_101_def block_at_def gte_def)
  have later: "height (block_at 7) \<le> height (block_at 8)"
    by (simp add: block_at_def)
  have before: "LoanSchemeMapper_get store_101 (scheme_id (deferredLoanSchemeTable store_101 ! 100)) = None"
    by (simp add: store_101_def LoanSchemeMapper_get_def table_get_def)
  have full: "length (deferredLoanSchemeTable store_101) = 101 \<and>
      (\<forall>e\<in>set (deferredLoanSchemeTable store_101).
         gte (height (block_at 7)) (activateAfterBlock e)) \<and>
      height (block_at 7) \<le> height (block_at 8)"
    using len due later by blast
  from batch_cap [OF d, of "block_at 7" "block_at 8"] full
  have "deferredLoanSchemeTable (index (block_at 7) store_101) =
      [deferredLoanSchemeTable store_101 ! 100] \<and>
    LoanSchemeMapper_get (index (block_at 7) store_101)
      (scheme_id (deferredLoanSchemeTable store_101 ! 100)) =
      LoanSchemeMapper_get store_101 (scheme_id (deferredLoanSchemeTable store_101 ! 100)) \<and>
    LoanSchemeMapper_get (index (block_at 8) (index (block_at 7) store_101))
      (scheme_id (deferredLoanSchemeTable store_101 ! 100)) =
      Some (deferredLoanSchemeTable store_101 ! 100) \<and>
    deferredLoanSchemeTable (index (block_at 8) (index (block_at 7) store_101)) = []"
    by blast
  with len before show ?thesis by simp
qed

lemma deferred_101_due: "\<forall>e\<in>set deferred_101. gte 7 (activateAfterBlock e)"
  by (simp add: deferred_101_def gte_def)

lemma store_102_distinct: "distinct (map scheme_id (deferredLoanSchemeTable store_102))"
proof -
  have "''n'' \<notin> set (map scheme_id deferred_101)"
    by (auto simp: deferred_101_def)
  then show ?thesis
    using deferred_101_distinct by (simp add: store_102_def entry_not_due_def)
qed

text \<open>
  Claim C5 as the spec words it fails: with an entry that is not yet due ahead of them in
  the scan, of 101 entries due at block 7 the block promotes 99. The entry not yet due and
  the last two due entries are left in the deferred table, and the due entry at position
  99 has no current record.
\<close>

theorem batch_cap_counterexample:
  "length (filter (due_at (block_at 7)) (deferredLoanSchemeTable store_102)) = 101 \<and>
   deferredLoanSchemeTable (index (block_at 7) store_102) =
     [entry_not_due, deferred_101 ! 99, deferred_101 ! 100] \<and>
   due_at (block_at 7) (deferred_101 ! 99) \<and>
   due_at (block_at 7) (deferred_101 ! 100) \<and>
   LoanSchemeMapper_get (index (block_at 7) store_102) (scheme_id (deferred_101 ! 99)) = None"
proof -
  have len: "length deferred_101 = Suc (Suc 99)"
    by (simp add: deferred_101_def)
  have tail: "drop 99 deferred_101 = [deferred_101 ! 99, deferred_101 ! Suc 99]"
    using len by (rule drop_last_two)
  have due: "due_at (block_at 7) e" if "e \<in> set deferred_101" for e
    using deferred_101_due that by (simp add: due_at_def block_at_def)
  have nd: "\<not> due_at (block_at 7) entry_not_due"
    by (simp add: due_at_def block_at_def entry_not_due_def gte_def)
  have "filter (due_at (block_at 7)) deferred_101 = deferred_101"
    using due by (simp add: filter_id_conv)
  then have count: "length (filter (due_at (block_at 7)) (deferredLoanSchemeTable store_102)) = 101"
    using nd len by (simp add: store_102_def)
  have m99: "deferred_101 ! 99 \<in> set deferred_101" and m100: "deferred_101 ! 100 \<in> set deferred_101"
    using len by simp_all
  have "filter (\<lambda>r. \<not> gte (height (block_at 7)) (activateAfterBlock r)) (take 99 deferred_101) = []"
    using due by (auto simp: filter_empty_conv due_at_def dest: in_set_takeD)
  then have left: "deferredLoanSchemeTable (index (block_at 7) store_102) =
      [entry_not_due, deferred_101 ! 99, deferred_101 ! 100]"
    using index_deferred_split [OF store_102_distinct, of "block_at 7"] nd tail
    by (simp add: store_102_def due_at_def)
  have "deferred_101 ! 99 \<in> set (drop 100 (deferredLoanSchemeTable store_102))"
    using tail by (simp add: store_102_def)
  from index_beyond_cap(2) [OF store_102_distinct this, of "block_at 7"]
  have none: "LoanSchemeMapper_get (index (block_at 7) store_102) (scheme_id (deferred_101 ! 99)) = None"
    by (simp add: store_102_def LoanSchemeMapper_get_def table_get_def)
  from count left due [OF m99] due [OF m100] none show ?thesis by simp
qed

subsection \<open>The rollback\<close>

lemma invalidate_txn_thrown:
  "invalidate_txn data st = (Some e, st') \<Longrightarrow> st' = st"
  unfolding invalidate_txn_def by (auto split: sum.splits)

lemma invalidate_txn_thrown_iff:
  "(\<exists>e. fst (invalidate_txn data st) = Some e) \<longleftrightarrow>
     (LoanSchemeMapper_get st (identifier data) = None \<or>
      LoanSchemeHistoryMapper_query st (identifier data) 1 = [])"
  unfolding invalidate_txn_def getCurrentLoanScheme_def getPrevLoanScheme_def
  by (auto split: sum.splits option.splits list.splits)

lemma invalidate_snoc:
  "invalidate (txns @ [data]) st =
     (case invalidate txns st of
        (Some e, st') \<Rightarrow> (Some e, st')
      | (None, st') \<Rightarrow> invalidate_txn data st')"
  by (induction txns arbitrary: st) (auto split: prod.splits option.splits)

lemma invalidate_take_Suc:
  "k < length txns \<Longrightarrow>
   invalidate (take (Suc k) txns) st =
     (case invalidate (take k txns) st of
        (Some e, st') \<Rightarrow> (Some e, st')
      | (None, st') \<Rightarrow> invalidate_txn (txns ! k) st')"
  by (simp add: take_Suc_conv_app_nth invalidate_snoc)

lemma invalidate_txn_done:
  assumes "LoanSchemeMapper_get st (identifier data) = Some cur"
    and "LoanSchemeHistoryMapper_query st (identifier data) 1 = h # hs"
  shows "invalidate_txn data st =
           (None, LoanSchemeMapper_put (recorded h) (DeferredLoanSchemeMapper_put cur st))"
  using assms
  by (simp add: invalidate_txn_def getCurrentLoanScheme_def getPrevLoanScheme_def)

text \<open>
  Claim C10. In \<^verbatim>\<open>invalidate\<close> both lookups of a transaction come before its two
  table writes. So when the call throws, the store it leaves is the store the failing
  transaction found: the transactions before it were rolled back, and the failing one
  wrote to neither table.
\<close>

theorem invalidate_throw_writes_nothing:
  assumes "fst (invalidate txns st) = Some e"
  shows "\<exists>k<length txns. \<exists>st'.
           invalidate (take k txns) st = (None, st') \<and>
           invalidate_txn (txns ! k) st' = (Some e, st') \<and>
           invalidate txns st = (Some e, st')"
  using assms
proof (induction txns arbitrary: st)
  case Nil
  then show ?case by simp
next
  case (Cons data txns)
  obtain r s where step: "invalidate_txn data st = (r, s)"
    by (cases "invalidate_txn data st")
  show ?case
  proof (cases r)
    case (Some e')
    with step Cons.prems have "e' = e" by simp
    moreover from step Some have "s = st" by (simp add: invalidate_txn_thrown)
    ultimately have "invalidate (take 0 (data # txns)) st = (None, st) \<and>
        invalidate_txn ((data # txns) ! 0) st = (Some e, st) \<and>
        invalidate (data # txns) st = (Some e, st)"
      using step Some by simp
    then show ?thesis by blast
  next
    case None
    with step Cons.prems have "fst (invalidate txns s) = Some e" by simp
    from Cons.IH [OF this] obtain k st' where k: "k < length txns"
      and pre: "invalidate (take k txns) s = (None, st')"
      and at: "invalidate_txn (txns ! k) st' = (Some e, st')"
      and all: "invalidate txns s = (Some e, st')"
      by blast
    have "Suc k < length (data # txns) \<and>
        invalidate (take (Suc k) (data # txns)) st = (None, st') \<and>
        invalidate_txn ((data # txns) ! Suc k) st' = (Some e, st') \<and>
        invalidate (data # txns) st = (Some e, st')"
      using k pre at all step None by simp
    then show ?thesis by blast
  qed
qed

text \<open>
  Claim C10 at a block of two transactions: scheme \<open>A\<close> is rolled back, scheme \<open>B\<close>
  has no current record.
\<close>

theorem invalidate_throw_writes_nothing_witness:
  "fst (invalidate [txn_for ''A'', txn_for ''B''] store_activated) =
     Some (NotFoundIndexerError ''index'' ''LoanScheme'' ''B'') \<and>
   (\<exists>k<length [txn_for ''A'', txn_for ''B'']. \<exists>st'.
      invalidate (take k [txn_for ''A'', txn_for ''B'']) store_activated = (None, st') \<and>
      invalidate_txn ([txn_for ''A'', txn_for ''B''] ! k) st' =
        (Some (NotFoundIndexerError ''index'' ''LoanScheme'' ''B''), st') \<and>
      invalidate [txn_for ''A'', txn_for ''B''] store_activated =
        (Some (NotFoundIndexerError ''index'' ''LoanScheme'' ''B''), st'))"
proof -
  have thrown: "fst (invalidate [txn_for ''A'', txn_for ''B''] store_activated) =
     Some (NotFoundIndexerError ''index'' ''LoanScheme'' ''B'')"
    by (simp add: example_defs mapper_defs indexer_defs)
  show ?thesis
    using invalidate_throw_writes_nothing [OF thrown] thrown by simp
qed

text \<open>
  Claim C3. \<^verbatim>\<open>invalidate\<close> throws exactly when it reaches a transaction whose scheme
  has no current LoanScheme record or no history record, the transactions before it
  having been rolled back; the loop does not skip such a transaction.
\<close>

theorem invalidate_throws_iff:
  "(\<exists>e. fst (invalidate txns st) = Some e) \<longleftrightarrow>
   (\<exists>k<length txns. \<exists>st'.
      invalidate (take k txns) st = (None, st') \<and>
      (LoanSchemeMapper_get st' (identifier (txns ! k)) = None \<or>
       LoanSchemeHistoryMapper_query st' (identifier (txns ! k)) 1 = []))"
proof (induction txns arbitrary: st)
  case Nil
  show ?case by simp
next
  case (Cons data txns)
  obtain r s where step: "invalidate_txn data st = (r, s)"
    by (cases "invalidate_txn data st")
  show ?case
  proof (cases r)
    case (Some e')
    have miss: "LoanSchemeMapper_get st (identifier data) = None \<or>
        LoanSchemeHistoryMapper_query st (identifier data) 1 = []"
      using invalidate_txn_thrown_iff [of data st] step Some by simp
    have "0 < length (data # txns) \<and> invalidate (take 0 (data # txns)) st = (None, st) \<and>
        (LoanSchemeMapper_get st (identifier ((data # txns) ! 0)) = None \<or>
         LoanSchemeHistoryMapper_query st (identifier ((data # txns) ! 0)) 1 = [])"
      using miss by simp
    then have "\<exists>k<length (data # txns). \<exists>st'.
        invalidate (take k (data # txns)) st = (None, st') \<and>
        (LoanSchemeMapper_get st' (identifier ((data # txns) ! k)) = None \<or>
         LoanSchemeHistoryMapper_query st' (identifier ((data # txns) ! k)) 1 = [])"
      by blast
    moreover have "\<exists>e. fst (invalidate (data # txns) st) = Some e"
      using step Some by simp
    ultimately show ?thesis by blast
  next
    case None
    have present: "\<not> (LoanSchemeMapper_get st (identifier data) = None \<or>
        LoanSchemeHistoryMapper_query st (identifier data) 1 = [])"
      using invalidate_txn_thrown_iff [of data st] step None by simp
    have lhs: "(\<exists>e. fst (invalidate (data # txns) st) = Some e) \<longleftrightarrow>
        (\<exists>e. fst (invalidate txns s) = Some e)"
      using step None by simp
    have rhs: "(\<exists>k<length (data # txns). \<exists>st'.
          invalidate (take k (data # txns)) st = (None, st') \<and>
          (LoanSchemeMapper_get st' (identifier ((data # txns) ! k)) = None \<or>
           LoanSchemeHistoryMapper_query st' (identifier ((data # txns) ! k)) 1 = [])) \<longleftrightarrow>
        (\<exists>k<length txns. \<exists>st'.
          invalidate (take k txns) s = (None, st') \<and>
          (LoanSchemeMapper_get st' (identifier (txns ! k)) = None \<or>
           LoanSchemeHistoryMapper_query st' (identifier (txns ! k)) 1 = []))"
      (is "?A \<longleftrightarrow> ?B")
    proof
      assume ?A
      then obtain k st' where k: "k < length (data # txns)"
        and pre: "invalidate (take k (data # txns)) st = (None, st')"
        and miss: "LoanSchemeMapper_get st' (identifier ((data # txns) ! k)) = None \<or>
           LoanSchemeHistoryMapper_query st' (identifier ((data # txns) ! k)) 1 = []"
        by blast
      show ?B
      proof (cases k)
        case 0
        with pre miss present show ?thesis by simp
      next
        case (Suc j)
        with k pre miss step None have "j < length txns \<and>
          invalidate (take j txns) s = (None, st') \<and>
          (LoanSchemeMapper_get st' (identifier (txns ! j)) = None \<or>
           LoanSchemeHistoryMapper_query st' (identifier (txns ! j)) 1 = [])"
          by simp
        then show ?thesis by blast
      qed
    next
      assume ?B
      then obtain k st' where k: "k < length txns"
        and pre: "invalidate (take k txns) s = (None, st')"
        and miss: "LoanSchemeMapper_get st' (identifier (txns ! k)) = None \<or>
           LoanSchemeHistoryMapper_query st' (identifier (txns ! k)) 1 = []"
        by blast
      then have "Suc k < length (data # txns) \<and>
          invalidate (take (Suc k) (data # txns)) st = (None, st') \<and>
          (LoanSchemeMapper_get st' (identifier ((data # txns) ! Suc k)) = None \<or>
           LoanSchemeHistoryMapper_query st' (identifier ((data # txns) ! Suc k)) 1 = [])"
        using step None by simp
      then show ?A by blast
    qed
    show ?thesis unfolding lhs rhs by (rule Cons.IH)
  qed
qed

text \<open>
  Claim C3 at the same block.
\<close>

theorem invalidate_throws_iff_witness:
  "(\<exists>e. fst (invalidate [txn_for ''A'', txn_for ''B''] store_activated) = Some e) \<and>
   (\<exists>k<length [txn_for ''A'', txn_for ''B'']. \<exists>st'.
      invalidate (take k [txn_for ''A'', txn_for ''B'']) store_activated = (None, st') \<and>
      (LoanSchemeMapper_get st' (identifier ([txn_for ''A'', txn_for ''B''] ! k)) = None \<or>
       LoanSchemeHistoryMapper_query st' (identifier ([txn_for ''A'', txn_for ''B''] ! k)) 1 = []))"
proof -
  have thrown: "\<exists>e. fst (invalidate [txn_for ''A'', txn_for ''B''] store_activated) = Some e"
    by (simp add: example_defs mapper_defs indexer_defs)
  show ?thesis
    using invalidate_throws_iff [of "[txn_for ''A'', txn_for ''B'']" store_activated] thrown
    by simp
qed

text \<open>
  Claim C2, as the code has it. For each transaction that \<^verbatim>\<open>invalidate\<close> rolls back,
  the current LoanScheme record of its identifier is put into the deferred table under
  that identifier, and the most recent history record of that identifier is put into the
  LoanScheme table under the id the record itself carries; every other row of the two
  tables stays as it was. So the history record is the scheme's now-current record when
  it carries the transaction's identifier as its id, and otherwise the scheme's current
  record stays the one it was.
\<close>

theorem invalidate_writes:
  assumes k: "k < length txns"
    and pre: "invalidate (take k txns) st = (None, st')"
    and cur: "LoanSchemeMapper_get st' (identifier (txns ! k)) = Some cur"
    and prev: "LoanSchemeHistoryMapper_query st' (identifier (txns ! k)) 1 = [h]"
  shows "\<exists>st''. invalidate (take (Suc k) txns) st = (None, st'') \<and>
           (\<forall>i. DeferredLoanSchemeMapper_get st'' i =
                 (if i = identifier (txns ! k) then Some cur
                  else DeferredLoanSchemeMapper_get st' i)) \<and>
           (\<forall>i. LoanSchemeMapper_get st'' i =
                 (if i = scheme_id (recorded h) then Some (recorded h)
                  else LoanSchemeMapper_get st' i)) \<and>
           LoanSchemeMapper_get st'' (identifier (txns ! k)) =
             (if scheme_id (recorded h) = identifier (txns ! k) then Some (recorded h)
              else Some cur)"
proof -
  let ?st'' = "LoanSchemeMapper_put (recorded h) (DeferredLoanSchemeMapper_put cur st')"
  have id: "scheme_id cur = identifier (txns ! k)"
    using cur unfolding LoanSchemeMapper_get_def by (rule table_get_id)
  have run: "invalidate (take (Suc k) txns) st = (None, ?st'')"
    using invalidate_txn_done [OF cur prev] pre k by (simp add: invalidate_take_Suc)
  have deferred: "DeferredLoanSchemeMapper_get ?st'' i =
      (if i = identifier (txns ! k) then Some cur else DeferredLoanSchemeMapper_get st' i)" for i
    using id
    by (simp add: DeferredLoanSchemeMapper_get_def LoanSchemeMapper_put_def
          DeferredLoanSchemeMapper_put_def table_get_put)
  have loan: "LoanSchemeMapper_get ?st'' i =
      (if i = scheme_id (recorded h) then Some (recorded h) else LoanSchemeMapper_get st' i)" for i
    by (simp add: LoanSchemeMapper_get_def LoanSchemeMapper_put_def
          DeferredLoanSchemeMapper_put_def table_get_put)
  have now: "LoanSchemeMapper_get ?st'' (identifier (txns ! k)) =
      (if scheme_id (recorded h) = identifier (txns ! k) then Some (recorded h) else Some cur)"
    using cur by (auto simp: loan)
  from run deferred loan now show ?thesis by blast
qed

text \<open>
  Claim C2, the amended statement at scheme \<open>A\<close> once its update is current: with the
  history record carrying the id \<open>A\<close> it becomes the current record of \<open>A\<close>; with the
  history record carrying the id \<open>A-5\<close> it is stored under \<open>A-5\<close> and the current
  record of \<open>A\<close> stays the update.
\<close>

theorem invalidate_writes_witness:
  "(\<exists>st''. invalidate (take (Suc 0) [txn_for ''A'']) store_activated = (None, st'') \<and>
      DeferredLoanSchemeMapper_get st'' ''A'' = Some scheme_A_update \<and>
      LoanSchemeMapper_get st'' ''A'' = Some scheme_A_recorded) \<and>
   (\<exists>st''. invalidate (take (Suc 0) [txn_for ''A'']) store_activated_keyed = (None, st'') \<and>
      DeferredLoanSchemeMapper_get st'' ''A'' = Some scheme_A_update \<and>
      LoanSchemeMapper_get st'' ''A-5'' = Some scheme_A_recorded_keyed \<and>
      LoanSchemeMapper_get st'' ''A'' = Some scheme_A_update)"
proof -
  have k: "0 < length [txn_for ''A'']" by simp
  have pre: "invalidate (take 0 [txn_for ''A'']) s = (None, s)" for s
    by simp
  have cur: "LoanSchemeMapper_get store_activated (identifier ([txn_for ''A''] ! 0)) =
      Some scheme_A_update"
    by (simp add: example_defs mapper_defs)
  have prev: "LoanSchemeHistoryMapper_query store_activated (identifier ([txn_for ''A''] ! 0)) 1 =
      [history_A]"
    by (simp add: example_defs mapper_defs)
  have cur': "LoanSchemeMapper_get store_activated_keyed (identifier ([txn_for ''A''] ! 0)) =
      Some scheme_A_update"
    by (simp add: example_defs keyed_defs mapper_defs)
  have prev': "LoanSchemeHistoryMapper_query store_activated_keyed
      (identifier ([txn_for ''A''] ! 0)) 1 = [history_A_keyed]"
    by (simp add: example_defs keyed_defs mapper_defs)
  have ids: "identifier (txn_for ''A'') = ''A''" "recorded history_A = scheme_A_recorded"
    "recorded history_A_keyed = scheme_A_recorded_keyed" "scheme_id scheme_A_recorded = ''A''"
    "scheme_id scheme_A_recorded_keyed = ''A-5''"
    by (simp_all add: example_defs keyed_defs)
  from invalidate_writes [OF k pre cur prev]
  have first: "\<exists>st''. invalidate (take (Suc 0) [txn_for ''A'']) store_activated = (None, st'') \<and>
      DeferredLoanSchemeMapper_get st'' ''A'' = Some scheme_A_update \<and>
      LoanSchemeMapper_get st'' ''A'' = Some scheme_A_recorded"
    by (auto simp: ids)
  from invalidate_writes [OF k pre cur' prev']
  have second: "\<exists>st''. invalidate (take (Suc 0) [txn_for ''A'']) store_activated_keyed = (None, st'') \<and>
      DeferredLoanSchemeMapper_get st'' ''A'' = Some scheme_A_update \<and>
      LoanSchemeMapper_get st'' ''A-5'' = Some scheme_A_recorded_keyed \<and>
      LoanSchemeMapper_get st'' ''A'' = Some scheme_A_update"
    by (auto simp: ids)
  from first second show ?thesis by blast
qed

text \<open>
  Claim C2 as the spec words it fails. Scheme \<open>A\<close> has its update as current record and
  the state before the update in its history. After the rollback the deferred entry of
  \<open>A\<close> is the record that was current, and not the history record; the history record
  is the current record.
\<close>

theorem invalidate_swaps_counterexample:
  "fst (invalidate [txn_for ''A''] store_activated) = None \<and>
   getCurrentLoanScheme store_activated ''A'' = Inr scheme_A_update \<and>
   getPrevLoanScheme store_activated ''A'' = Inr history_A \<and>
   DeferredLoanSchemeMapper_get (snd (invalidate [txn_for ''A''] store_activated)) ''A'' =
     Some scheme_A_update \<and>
   DeferredLoanSchemeMapper_get (snd (invalidate [txn_for ''A''] store_activated)) ''A'' \<noteq>
     Some (recorded history_A) \<and>
   LoanSchemeMapper_get (snd (invalidate [txn_for ''A''] store_activated)) ''A'' =
     Some (recorded history_A)"
  by (simp add: example_defs mapper_defs indexer_defs)

subsection \<open>The forward pass followed by the rollback\<close>

lemma invalidate_found:
  assumes "distinct (map identifier txns)"
    and "\<forall>data\<in>set txns. \<exists>c h.
           LoanSchemeMapper_get s (identifier data) = Some c \<and>
           LoanSchemeHistoryMapper_query s (identifier data) 1 = [h] \<and>
           scheme_id (recorded h) = identifier data"
  shows "fst (invalidate txns s) = None \<and>
         loanSchemeHistoryTable (snd (invalidate txns s)) = loanSchemeHistoryTable s \<and>
         (\<forall>k. LoanSchemeMapper_get (snd (invalidate txns s)) k =
            (if k \<in> identifier ` set txns
             then map_option recorded (List.find (\<lambda>_. True) (LoanSchemeHistoryMapper_query s k 1))
             else LoanSchemeMapper_get s k)) \<and>
         (\<forall>k. DeferredLoanSchemeMapper_get (snd (invalidate txns s)) k =
            (if k \<in> identifier ` set txns then LoanSchemeMapper_get s k
             else DeferredLoanSchemeMapper_get s k))"
  using assms
proof (induction txns arbitrary: s)
  case Nil
  show ?case by simp
next
  case (Cons data txns)
  from Cons.prems(2) obtain c h where c: "LoanSchemeMapper_get s (identifier data) = Some c"
    and h: "LoanSchemeHistoryMapper_query s (identifier data) 1 = [h]"
    and hid: "scheme_id (recorded h) = identifier data"
    by auto
  have cid: "scheme_id c = identifier data"
    using c unfolding LoanSchemeMapper_get_def by (rule table_get_id)
  let ?s1 = "LoanSchemeMapper_put (recorded h) (DeferredLoanSchemeMapper_put c s)"
  have step: "invalidate_txn data s = (None, ?s1)"
    using c h by (rule invalidate_txn_done)
  have run: "invalidate (data # txns) s = invalidate txns ?s1"
    by (simp add: step)
  have hist1: "loanSchemeHistoryTable ?s1 = loanSchemeHistoryTable s"
    by (simp add: LoanSchemeMapper_put_def DeferredLoanSchemeMapper_put_def)
  have q1: "LoanSchemeHistoryMapper_query ?s1 k n = LoanSchemeHistoryMapper_query s k n" for k n
    by (simp add: LoanSchemeHistoryMapper_query_def hist1)
  have l1: "LoanSchemeMapper_get ?s1 k =
      (if k = identifier data then Some (recorded h) else LoanSchemeMapper_get s k)" for k
    using hid
    by (simp add: LoanSchemeMapper_get_def LoanSchemeMapper_put_def DeferredLoanSchemeMapper_put_def
          table_get_put)
  have d1: "DeferredLoanSchemeMapper_get ?s1 k =
      (if k = identifier data then Some c else DeferredLoanSchemeMapper_get s k)" for k
    using cid
    by (simp add: DeferredLoanSchemeMapper_get_def LoanSchemeMapper_put_def
          DeferredLoanSchemeMapper_put_def table_get_put)
  have fresh: "identifier data \<notin> identifier ` set txns" and dist: "distinct (map identifier txns)"
    using Cons.prems(1) by simp_all
  have pre: "\<forall>data'\<in>set txns. \<exists>c h.
           LoanSchemeMapper_get ?s1 (identifier data') = Some c \<and>
           LoanSchemeHistoryMapper_query ?s1 (identifier data') 1 = [h] \<and>
           scheme_id (recorded h) = identifier data'"
  proof
    fix data' assume m: "data' \<in> set txns"
    with fresh have "identifier data' \<noteq> identifier data" by (metis imageI)
    with Cons.prems(2) m show "\<exists>c h.
           LoanSchemeMapper_get ?s1 (identifier data') = Some c \<and>
           LoanSchemeHistoryMapper_query ?s1 (identifier data') 1 = [h] \<and>
           scheme_id (recorded h) = identifier data'"
      by (simp add: l1 q1)
  qed
  note IH = Cons.IH [OF dist pre]
  show ?case
    unfolding run using IH fresh c h
    by (auto simp: l1 d1 q1 hist1)
qed

text \<open>
  Claim C1 fails on a block that holds no transaction of the indexer while a deferred
  entry falls due: the forward pass promotes the entry, the rollback has nothing to
  iterate over, and both tables keep the promoted state.
\<close>

theorem roundtrip_counterexample:
  "invalidate [] (index (block_at 10) store_pending) = (None, store_activated) \<and>
   loanSchemeTable store_activated \<noteq> loanSchemeTable store_pending \<and>
   deferredLoanSchemeTable store_activated \<noteq> deferredLoanSchemeTable store_pending"
  by (simp add: example_defs mapper_defs indexer_defs)

text \<open>
  Claim C1, as the code has it. The rollback undoes the forward pass of a block when the
  block's transactions name, each once, exactly the schemes that the forward pass
  promoted, and the most recent history record of each of them is the record that was
  current before the block. Then \<^verbatim>\<open>invalidate\<close> does not throw, and afterwards every
  identifier has in the LoanScheme table and in the deferred table what it had before the
  block.
\<close>

theorem roundtrip_when_paired:
  assumes d: "distinct (map scheme_id (deferredLoanSchemeTable st))"
    and tx: "distinct (map identifier txns)"
    and cover: "identifier ` set txns =
       scheme_id ` {e \<in> set (DeferredLoanSchemeMapper_query st 100).
                     gte (height block) (activateAfterBlock e)}"
    and hist: "\<forall>data\<in>set txns. \<exists>h.
       LoanSchemeHistoryMapper_query st (identifier data) 1 = [h] \<and>
       LoanSchemeMapper_get st (identifier data) = Some (recorded h)"
  shows "fst (invalidate txns (index block st)) = None \<and>
         (\<forall>k. LoanSchemeMapper_get (snd (invalidate txns (index block st))) k =
               LoanSchemeMapper_get st k) \<and>
         (\<forall>k. DeferredLoanSchemeMapper_get (snd (invalidate txns (index block st))) k =
               DeferredLoanSchemeMapper_get st k)"
proof -
  let ?s1 = "index block st"
  let ?P = "{e \<in> set (DeferredLoanSchemeMapper_query st 100). gte (height block) (activateAfterBlock e)}"
  have h1: "loanSchemeHistoryTable ?s1 = loanSchemeHistoryTable st"
    by (simp add: index_def index_loop_history)
  have q1: "LoanSchemeHistoryMapper_query ?s1 k n = LoanSchemeHistoryMapper_query st k n" for k n
    by (simp add: LoanSchemeHistoryMapper_query_def h1)
  have hit: "LoanSchemeMapper_get ?s1 (scheme_id e) = Some e \<and>
      DeferredLoanSchemeMapper_get ?s1 (scheme_id e) = None \<and>
      DeferredLoanSchemeMapper_get st (scheme_id e) = Some e" if "e \<in> ?P" for e
  proof -
    from that have e: "e \<in> set (DeferredLoanSchemeMapper_query st 100)"
      and due: "gte (height block) (activateAfterBlock e)" by simp_all
    have "e \<in> set (deferredLoanSchemeTable st)"
      using e by (auto simp: DeferredLoanSchemeMapper_query_def table_query_def dest: in_set_takeD)
    then have "DeferredLoanSchemeMapper_get st (scheme_id e) = Some e"
      unfolding DeferredLoanSchemeMapper_get_def using d by (simp add: table_get_distinct)
    then show ?thesis
      using index_promotes [OF d e due]
      by (simp add: DeferredLoanSchemeMapper_get_def table_get_None)
  qed
  have miss: "LoanSchemeMapper_get ?s1 k = LoanSchemeMapper_get st k \<and>
      DeferredLoanSchemeMapper_get ?s1 k = DeferredLoanSchemeMapper_get st k" if "k \<notin> scheme_id ` ?P" for k
  proof -
    let ?xs = "take 100 (deferredLoanSchemeTable st)"
    have none: "\<not> (\<exists>e\<in>set ?xs. gte (height block) (activateAfterBlock e) \<and> scheme_id e = k)"
      using that by (auto simp: DeferredLoanSchemeMapper_query_def table_query_def)
    have "LoanSchemeMapper_get ?s1 k = LoanSchemeMapper_get st k"
      unfolding LoanSchemeMapper_get_def index_def DeferredLoanSchemeMapper_query_def table_query_def
      by (rule index_loop_loan_miss [OF none])
    moreover have "DeferredLoanSchemeMapper_get ?s1 k = DeferredLoanSchemeMapper_get st k"
      unfolding DeferredLoanSchemeMapper_get_def index_def DeferredLoanSchemeMapper_query_def
        table_query_def index_loop_deferred table_get_def
      using none by (intro find_filter_ids) blast
    ultimately show ?thesis by simp
  qed
  have pre: "\<forall>data\<in>set txns. \<exists>c h.
           LoanSchemeMapper_get ?s1 (identifier data) = Some c \<and>
           LoanSchemeHistoryMapper_query ?s1 (identifier data) 1 = [h] \<and>
           scheme_id (recorded h) = identifier data"
  proof
    fix data assume m: "data \<in> set txns"
    with cover obtain e where e: "e \<in> ?P" "identifier data = scheme_id e" by blast
    from hist m obtain h where h: "LoanSchemeHistoryMapper_query st (identifier data) 1 = [h]"
      "LoanSchemeMapper_get st (identifier data) = Some (recorded h)" by blast
    from h(2) have "scheme_id (recorded h) = identifier data"
      unfolding LoanSchemeMapper_get_def by (rule table_get_id)
    with hit [OF e(1)] e(2) h(1) show "\<exists>c h.
           LoanSchemeMapper_get ?s1 (identifier data) = Some c \<and>
           LoanSchemeHistoryMapper_query ?s1 (identifier data) 1 = [h] \<and>
           scheme_id (recorded h) = identifier data"
      by (simp add: q1)
  qed
  note inv = invalidate_found [OF tx pre]
  have loan: "LoanSchemeMapper_get (snd (invalidate txns ?s1)) k = LoanSchemeMapper_get st k" for k
  proof (cases "k \<in> identifier ` set txns")
    case True
    then obtain data where m: "data \<in> set txns" "k = identifier data" by blast
    from hist m obtain h where "LoanSchemeHistoryMapper_query st k 1 = [h]"
      "LoanSchemeMapper_get st k = Some (recorded h)" by blast
    with inv True show ?thesis by (simp add: q1)
  next
    case False
    with cover have "k \<notin> scheme_id ` ?P" by simp
    from miss [OF this] inv False show ?thesis by simp
  qed
  have deferred: "DeferredLoanSchemeMapper_get (snd (invalidate txns ?s1)) k =
      DeferredLoanSchemeMapper_get st k" for k
  proof (cases "k \<in> identifier ` set txns")
    case True
    with cover obtain e where e: "e \<in> ?P" "k = scheme_id e" by blast
    from hit [OF e(1)] e(2) inv True show ?thesis by simp
  next
    case False
    with cover have "k \<notin> scheme_id ` ?P" by simp
    from miss [OF this] inv False show ?thesis by simp
  qed
  from inv loan deferred show ?thesis by blast
qed

text \<open>
  Claim C1, the amended statement at the update of scheme \<open>A\<close>: block 10 promotes it
  and holds the one transaction that names \<open>A\<close>.
\<close>

theorem roundtrip_when_paired_witness:
  "index (block_at 10) store_pending = store_activated \<and>
   fst (invalidate [txn_for ''A''] (index (block_at 10) store_pending)) = None \<and>
   (\<forall>k. LoanSchemeMapper_get (snd (invalidate [txn_for ''A''] (index (block_at 10) store_pending))) k =
         LoanSchemeMapper_get store_pending k) \<and>
   (\<forall>k. DeferredLoanSchemeMapper_get (snd (invalidate [txn_for ''A''] (index (block_at 10) store_pending))) k =
         DeferredLoanSchemeMapper_get store_pending k)"
proof -
  have d: "distinct (map scheme_id (deferredLoanSchemeTable store_pending))"
    by (simp add: example_defs)
  have tx: "distinct (map identifier [txn_for ''A''])"
    by simp
  have cover: "identifier ` set [txn_for ''A''] =
       scheme_id ` {e \<in> set (DeferredLoanSchemeMapper_query store_pending 100).
                     gte (height (block_at 10)) (activateAfterBlock e)}"
    by (auto simp: example_defs mapper_defs indexer_defs)
  have hist: "\<forall>data\<in>set [txn_for ''A'']. \<exists>h.
       LoanSchemeHistoryMapper_query store_pending (identifier data) 1 = [h] \<and>
       LoanSchemeMapper_get store_pending (identifier data) = Some (recorded h)"
    by (simp add: example_defs mapper_defs)
  have fwd: "index (block_at 10) store_pending = store_activated"
    by (simp add: example_defs mapper_defs indexer_defs)
  show ?thesis
    using roundtrip_when_paired [OF d tx cover hist] fwd by simp
qed

subsection \<open>The read model\<close>

lemma run_after_whole:
  "(\<And>x y. 0 \<le> Compare comparefn x y) \<Longrightarrow> run_after comparefn False p xs = length xs"
  by (induction xs arbitrary: p) (simp_all add: Let_def not_less [symmetric])

text \<open>
  A comparator whose result is never negative tells the engine that the array is one
  ascending run: \<^verbatim>\<open>sort\<close> returns the array as it is.
\<close>

lemma Array_sort_never_negative:
  assumes "\<And>x y. 0 \<le> Compare comparefn x y"
  shows "Array_sort comparefn xs = xs"
proof (cases xs)
  case Nil
  then show ?thesis
    by (simp add: Array_sort_def CountAndMakeRun_def BinaryInsertionSort_def)
next
  case (Cons x ys)
  show ?thesis
  proof (cases ys)
    case Nil
    with Cons show ?thesis
      by (simp add: Array_sort_def CountAndMakeRun_def BinaryInsertionSort_def)
  next
    case (Cons y zs)
    have "\<not> Compare comparefn y x < 0"
      using assms [of y x] by simp
    with \<open>xs = x # ys\<close> Cons show ?thesis
      by (simp add: Array_sort_def CountAndMakeRun_def BinaryInsertionSort_def
            run_after_whole [OF assms])
  qed
qed

text \<open>
  The comparator of \<^verbatim>\<open>mapTokenAmounts\<close> ignores the element it is asked to compare with.
\<close>

lemma comparefn_one_sided:
  "Compare (\<lambda>a b. parseInt (token_id a)) x y = Compare (\<lambda>a b. parseInt (token_id a)) x z"
  by (simp add: Compare_def)

text \<open>
  Claim C6 fails on the code. The amounts of the tokens with the ids 3, 1 and 10, given in
  that order, come back in that order, not as 1, 3, 10: the comparator
  \<^verbatim>\<open>a => Number.parseInt(a.id)\<close> answers 3, 1 and 10, never a negative number, so the
  engine takes the array for sorted.
\<close>

theorem mapTokenAmounts_keeps_input_order:
  "map_sum (\<lambda>e. e) (map token_id)
     (mapTokenAmounts service (Some [Some ''1@USDT'', Some ''2@ETH'', Some ''3@TSLA''])) =
   Inr [''3'', ''1'', ''10'']"
  by code_simp

lemma get_catch_NotFound_iff:
  "get_catch id' err = NotFoundException ''Unable to find vault'' \<longleftrightarrow>
     err = RpcApiError (''Vault <'' @ id' @ ''> not found'') \<or>
     err = RpcApiError ''vaultId must be of length 64 (not 3, for '999')''"
  by (cases err) (simp_all add: get_catch_def)

lemma get_catch_BadRequest:
  "get_catch id' err \<noteq> NotFoundException ''Unable to find vault'' \<Longrightarrow>
   get_catch id' err = BadRequestException err"
  by (cases err) (simp_all add: get_catch_def split: if_splits)

text \<open>
  Claim C7 fails on the code. The node's length error is matched as one fixed text, the
  one for the identifier \<^verbatim>\<open>999\<close>. For the identifier \<^verbatim>\<open>12\<close> the node reports the
  same error with this identifier and its length in it, and \<^verbatim>\<open>get\<close> answers with
  BadRequest; only for \<^verbatim>\<open>999\<close> is the answer NotFound.
\<close>

theorem get_short_id_is_bad_request:
  "get service ''12'' =
     Inl (BadRequestException (RpcApiError ''vaultId must be of length 64 (not 2, for '12')'')) \<and>
   get service ''999'' = Inl (NotFoundException ''Unable to find vault'')"
  by code_simp

text \<open>
  Claim C9 fails on the code. A cursor of exactly 64 characters has an empty remainder;
  the height handed to the node is then NaN, not 0. A cursor with the digits 120 after
  the 64 characters gives the height 120.
\<close>

theorem listAuction_cursor_without_height:
  "listAuction_pagination \<lparr>query_size = 30, next = Some (replicate 64 CHR ''a'')\<rparr> =
     \<lparr>start = Some \<lparr>AuctionPaginationStart.vaultId = replicate 64 CHR ''a'',
                     AuctionPaginationStart.height = NaN\<rparr>, limit = 30\<rparr> \<and>
   listAuction_pagination \<lparr>query_size = 30, next = Some (replicate 64 CHR ''a'' @ ''120'')\<rparr> =
     \<lparr>start = Some \<lparr>AuctionPaginationStart.vaultId = replicate 64 CHR ''a'',
                     AuctionPaginationStart.height = Number 120\<rparr>, limit = 30\<rparr>"
  by code_simp

lemma Array_sort_single: "Array_sort comparefn [x] = [x]"
  by (simp add: Array_sort_def CountAndMakeRun_def BinaryInsertionSort_def)

lemma mapTokenAmounts_single:
  "mapTokenAmounts c (Some [x]) = Inr ls \<Longrightarrow> \<exists>l. ls = [l]"
  by (cases x)
     (auto simp: mapTokenAmounts_def Let_def Array_sort_single
           split: sum.splits if_splits)

lemma mapTokenAmounts_undefined:
  "mapTokenAmounts c (Some [None]) = Inl (TypeError ''split'')"
  by (simp add: mapTokenAmounts_def)

lemma rejections_set: "set (rejections rs) = {e. Inl e \<in> set rs}"
  by (induction rs) (auto simp: rejections_def split: sum.splits)

lemma rejections_none: "rejections rs = [] \<Longrightarrow> rs = map Inr (fulfilments rs)"
  by (induction rs)
     (auto simp: rejections_def fulfilments_def split: sum.splits)

lemma fulfilments_map_Inr: "fulfilments (map Inr vs) = vs" and rejections_map_Inr: "rejections (map Inr vs) = []"
  by (induction vs) (simp_all add: rejections_def fulfilments_def)

lemma Promise_all_race_Inr: "Promise_all_race first rs = Inr vs \<longleftrightarrow> rs = map Inr vs"
proof
  assume "Promise_all_race first rs = Inr vs"
  then have "rejections rs = []" and "fulfilments rs = vs"
    by (auto simp: Promise_all_race_def split: list.splits)
  then show "rs = map Inr vs"
    using rejections_none by blast
next
  assume "rs = map Inr vs"
  then show "Promise_all_race first rs = Inr vs"
    by (simp add: Promise_all_race_def rejections_map_Inr fulfilments_map_Inr)
qed

lemma Promise_all_race_Inl: "Promise_all_race first rs = Inl e \<Longrightarrow> Inl e \<in> set rs"
proof -
  assume a: "Promise_all_race first rs = Inl e"
  then obtain x xs where r: "rejections rs = x # xs"
    and e: "e = (x # xs) ! (first (x # xs) mod length (x # xs))"
    by (auto simp: Promise_all_race_def split: list.splits)
  have "first (x # xs) mod length (x # xs) < length (x # xs)"
    by simp
  then have "e \<in> set (x # xs)"
    unfolding e by (rule nth_mem)
  then have "e \<in> set (rejections rs)"
    by (simp add: r)
  then show ?thesis
    by (simp add: rejections_set)
qed

lemma Promise_all_race_rejects:
  "Inl e \<in> set rs \<Longrightarrow> \<exists>e'. Promise_all_race first rs = Inl e'"
proof -
  assume "Inl e \<in> set rs"
  then have "e \<in> set (rejections rs)"
    by (simp add: rejections_set)
  then obtain x xs where "rejections rs = x # xs"
    by (cases "rejections rs") auto
  then show ?thesis
    by (simp add: Promise_all_race_def)
qed

lemma mapLiquidationBatches_race:
  "mapLiquidationBatches c batches' =
     Promise_all_race (first_rejection c) (map (mapLiquidationBatch c) batches')"
  by (cases batches')
     (simp_all add: mapLiquidationBatches_def Promise_all_race_def rejections_def
        fulfilments_def)

lemma mapLiquidationBatch_mapped:
  "mapLiquidationBatch c b = Inr v \<Longrightarrow>
   \<exists>cs l. mapTokenAmounts c (Some (map Some (VaultLiquidationBatch.collaterals b))) = Inr cs \<and>
       mapTokenAmounts c (Some [VaultLiquidationBatch.loan b]) = Inr [l] \<and>
       v = \<lparr>LoanVaultLiquidationBatch.index = VaultLiquidationBatch.index b,
            LoanVaultLiquidationBatch.collaterals = cs,
            LoanVaultLiquidationBatch.loan = Some l\<rparr>"
  by (auto simp: mapLiquidationBatch_def split: sum.splits dest: mapTokenAmounts_single)

lemma mapTokenAmounts_unresolved:
  "batchTokenInfoBySymbol c [snd (destructure (split CHR ''@'' s))]
     (String (snd (destructure (split CHR ''@'' s)))) = None \<Longrightarrow>
   mapTokenAmounts c (Some [Some s]) = Inl (ConflictException ''unable to find token'')"
  by (cases "destructure (split CHR ''@'' s)")
     (simp add: mapTokenAmounts_def mappedItem_def Let_def)

text \<open>
  Claim C8, as the code has it. For every batch the mapper maps the collaterals and then
  the one-element array \<^verbatim>\<open>[batch.loan]\<close>. A batch that maps has as its view its index,
  the mapped collaterals and the mapped loan amount, never an absent loan. When the collaterals map, a batch that comes without
  a loan entry throws TypeError (at \<^verbatim>\<open>value.split\<close>), and a loan entry whose token is not
  resolved throws Conflict; when the collaterals fail, the batch throws their error.
  \<^verbatim>\<open>mapLiquidationBatches\<close> returns views, one per batch in order, exactly when every batch
  maps; it throws when some batch does, and what it throws is the error of one of the
  batches.
\<close>

theorem batch_view_has_loan:
  "(mapLiquidationBatches c batches' = Inr views \<longleftrightarrow>
      map (mapLiquidationBatch c) batches' = map Inr views) \<and>
   (\<forall>e. mapLiquidationBatches c batches' = Inl e \<longrightarrow>
      (\<exists>b\<in>set batches'. mapLiquidationBatch c b = Inl e)) \<and>
   ((\<exists>b\<in>set batches'. \<exists>e. mapLiquidationBatch c b = Inl e) \<longrightarrow>
      (\<exists>e. mapLiquidationBatches c batches' = Inl e)) \<and>
   (\<forall>b\<in>set batches'.
      (\<forall>v. mapLiquidationBatch c b = Inr v \<longrightarrow>
         (\<exists>cs l.
            mapTokenAmounts c (Some (map Some (VaultLiquidationBatch.collaterals b))) = Inr cs \<and>
            mapTokenAmounts c (Some [VaultLiquidationBatch.loan b]) = Inr [l] \<and>
            v = \<lparr>LoanVaultLiquidationBatch.index = VaultLiquidationBatch.index b,
                 LoanVaultLiquidationBatch.collaterals = cs,
                 LoanVaultLiquidationBatch.loan = Some l\<rparr>)) \<and>
      (\<forall>cs. mapTokenAmounts c (Some (map Some (VaultLiquidationBatch.collaterals b))) = Inr cs \<longrightarrow>
         (VaultLiquidationBatch.loan b = None \<longrightarrow>
            mapLiquidationBatch c b = Inl (TypeError ''split'')) \<and>
         (\<forall>s. VaultLiquidationBatch.loan b = Some s \<and>
              batchTokenInfoBySymbol c [snd (destructure (split CHR ''@'' s))]
                (String (snd (destructure (split CHR ''@'' s)))) = None \<longrightarrow>
            mapLiquidationBatch c b = Inl (ConflictException ''unable to find token''))) \<and>
      (\<forall>e. mapTokenAmounts c (Some (map Some (VaultLiquidationBatch.collaterals b))) = Inl e \<longrightarrow>
         mapLiquidationBatch c b = Inl e))"
proof (intro conjI allI impI ballI)
  show "mapLiquidationBatches c batches' = Inr views \<longleftrightarrow>
      map (mapLiquidationBatch c) batches' = map Inr views"
    by (simp add: mapLiquidationBatches_race Promise_all_race_Inr)
next
  fix e assume "mapLiquidationBatches c batches' = Inl e"
  then have "Inl e \<in> set (map (mapLiquidationBatch c) batches')"
    unfolding mapLiquidationBatches_race by (rule Promise_all_race_Inl)
  then show "\<exists>b\<in>set batches'. mapLiquidationBatch c b = Inl e"
    by auto
next
  assume "\<exists>b\<in>set batches'. \<exists>e. mapLiquidationBatch c b = Inl e"
  then obtain b e where "b \<in> set batches'" "mapLiquidationBatch c b = Inl e" by blast
  then have "Inl e \<in> set (map (mapLiquidationBatch c) batches')"
    by (metis image_eqI set_map)
  then show "\<exists>e. mapLiquidationBatches c batches' = Inl e"
    unfolding mapLiquidationBatches_race by (rule Promise_all_race_rejects)
next
  fix b v assume "mapLiquidationBatch c b = Inr v"
  then show "\<exists>cs l.
      mapTokenAmounts c (Some (map Some (VaultLiquidationBatch.collaterals b))) = Inr cs \<and>
      mapTokenAmounts c (Some [VaultLiquidationBatch.loan b]) = Inr [l] \<and>
      v = \<lparr>LoanVaultLiquidationBatch.index = VaultLiquidationBatch.index b,
           LoanVaultLiquidationBatch.collaterals = cs,
           LoanVaultLiquidationBatch.loan = Some l\<rparr>"
    by (rule mapLiquidationBatch_mapped)
next
  fix b :: VaultLiquidationBatch and cs
  assume "mapTokenAmounts c (Some (map Some (VaultLiquidationBatch.collaterals b))) = Inr cs"
    and "VaultLiquidationBatch.loan b = None"
  then show "mapLiquidationBatch c b = Inl (TypeError ''split'')"
    by (simp add: mapLiquidationBatch_def mapTokenAmounts_undefined)
next
  fix b :: VaultLiquidationBatch and cs s
  assume cs: "mapTokenAmounts c (Some (map Some (VaultLiquidationBatch.collaterals b))) = Inr cs"
    and s: "VaultLiquidationBatch.loan b = Some s \<and>
      batchTokenInfoBySymbol c [snd (destructure (split CHR ''@'' s))]
        (String (snd (destructure (split CHR ''@'' s)))) = None"
  from s have "mapTokenAmounts c (Some [Some s]) = Inl (ConflictException ''unable to find token'')"
    by (simp add: mapTokenAmounts_unresolved)
  with cs s show "mapLiquidationBatch c b = Inl (ConflictException ''unable to find token'')"
    by (simp add: mapLiquidationBatch_def)
next
  fix b :: VaultLiquidationBatch and e
  assume "mapTokenAmounts c (Some (map Some (VaultLiquidationBatch.collaterals b))) = Inl e"
  then show "mapLiquidationBatch c b = Inl e"
    by (simp add: mapLiquidationBatch_def)
qed

text \<open>
  Claim C8, the amended statement at three batches with the collateral \<^verbatim>\<open>1@ETH\<close>: one
  with the loan \<^verbatim>\<open>2@USDT\<close>, one without a loan entry, one with the empty text as loan.
\<close>

theorem batch_view_has_loan_witness:
  "mapLiquidationBatches service [batch_with_loan] =
     Inr [\<lparr>LoanVaultLiquidationBatch.index = 0,
           LoanVaultLiquidationBatch.collaterals = [amount_of ''1'' ''1'' ''ETH''],
           LoanVaultLiquidationBatch.loan = Some (amount_of ''3'' ''2'' ''USDT'')\<rparr>] \<and>
   mapLiquidationBatch service batch_without_loan = Inl (TypeError ''split'') \<and>
   mapLiquidationBatch service batch_with_empty_loan =
     Inl (ConflictException ''unable to find token'') \<and>
   (\<exists>e. mapLiquidationBatches service
           [batch_with_loan, batch_without_loan, batch_with_empty_loan] = Inl e)"
proof -
  let ?view = "\<lparr>LoanVaultLiquidationBatch.index = 0,
           LoanVaultLiquidationBatch.collaterals = [amount_of ''1'' ''1'' ''ETH''],
           LoanVaultLiquidationBatch.loan = Some (amount_of ''3'' ''2'' ''USDT'')\<rparr>"
  let ?all = "[batch_with_loan, batch_without_loan, batch_with_empty_loan]"
  have one: "map (mapLiquidationBatch service) [batch_with_loan] = map Inr [?view]"
    by code_simp
  have cs: "mapTokenAmounts service
      (Some (map Some (VaultLiquidationBatch.collaterals batch_without_loan))) =
      Inr [amount_of ''1'' ''1'' ''ETH'']"
    by code_simp
  have cs': "mapTokenAmounts service
      (Some (map Some (VaultLiquidationBatch.collaterals batch_with_empty_loan))) =
      Inr [amount_of ''1'' ''1'' ''ETH'']"
    by code_simp
  have none: "VaultLiquidationBatch.loan batch_without_loan = None"
    by (simp add: batch_without_loan_def)
  have empty: "VaultLiquidationBatch.loan batch_with_empty_loan = Some [] \<and>
      batchTokenInfoBySymbol service [snd (destructure (split CHR ''@'' []))]
        (String (snd (destructure (split CHR ''@'' [])))) = None"
    by (simp add: batch_with_empty_loan_def service_def registry_def String_def)
  have mem: "batch_without_loan \<in> set ?all" "batch_with_empty_loan \<in> set ?all"
    by simp_all
  note all = batch_view_has_loan [of service ?all "[]"]
  from all mem(1) cs none
  have t: "mapLiquidationBatch service batch_without_loan = Inl (TypeError ''split'')"
    by blast
  from all mem(2) cs' empty
  have c: "mapLiquidationBatch service batch_with_empty_loan =
      Inl (ConflictException ''unable to find token'')"
    by blast
  from all mem(1) t
  have thrown: "\<exists>e. mapLiquidationBatches service ?all = Inl e"
    by blast
  from batch_view_has_loan [of service "[batch_with_loan]" "[?view]"] one
  have ok: "mapLiquidationBatches service [batch_with_loan] = Inr [?view]"
    by blast
  from ok t c thrown show ?thesis by blast
qed

text \<open>
  Claim C8 as the spec words it fails: a batch that comes without a loan entry, and a
  batch whose loan entry is the empty text, make the mapper throw.
\<close>

theorem batch_without_loan_counterexample:
  "mapLiquidationBatches service [batch_without_loan] = Inl (TypeError ''split'') \<and>
   mapLiquidationBatches service [batch_with_empty_loan] =
     Inl (ConflictException ''unable to find token'')"
  by code_simp

end
